theory Spec2Isabelle
  imports Main
begin

section \<open>The host the deploy scripts act on\<close>

text \<open>
  The release orchestration of the repository is a set of deploy scripts. The one that
  stages a release, health-checks it and promotes it is the bash script
  \<^verbatim>\<open>server_clone_and_deploy.sh\<close> in its variant with a releases directory (in the
  sources: \<^verbatim>\<open>unnamed/part_002\<close>). The local development script is a PowerShell script
  with a two-attempt build and a restart of the previous container
  (\<^verbatim>\<open>unnamed/part_000\<close>), and the script that deploys to the VPS wraps the remote build
  in a \<^verbatim>\<open>try\<close> with a \<^verbatim>\<open>finally\<close> (\<^verbatim>\<open>unnamed/part_004\<close>). All are straight-line
  programs over the host: directories, the containers of the deployment, the swap file.
  The model passes that host explicitly, takes the exit status of every external command
  from an environment, and records the commands in the order they are run.

  A directory is a finite map from file names to contents. \<^verbatim>\<open>APP_DIR\<close> and
  \<^verbatim>\<open>RELEASE_DIR\<close> are different directories: the script computes the release directory
  as \<^verbatim>\<open>$(dirname "$APP_DIR")/releases/<timestamp>\<close>.
\<close>

type_synonym dir = "string \<rightharpoonup> string"

text \<open>
  The containers of the deployment, abstracted to what the scripts decide on: the previous
  deployment is up, the one started from the new release is up, or the deployment is not
  up (its containers were stopped or removed).
\<close>

datatype services = NoServices | OldServices | NewServices

text \<open>
  Every external command the server script runs, one constructor per command (the source
  lines are those of \<^verbatim>\<open>unnamed/part_002\<close>). The environment gives each its exit status,
  and the host records the commands in the order they were run.
\<close>

datatype cmd =
    CommandVGit                 \<comment> \<open>line 20: command -v git\<close>
  | CommandVDocker              \<comment> \<open>line 24: command -v docker\<close>
  | ComposeDownRmiIn string     \<comment> \<open>line 40: cd d && docker compose down --remove-orphans --rmi all\<close>
  | DockerRmContainers          \<comment> \<open>line 51: docker rm -f $IDS\<close>
  | DockerRmNamed string        \<comment> \<open>line 61: docker rm -f $CID\<close>
  | DockerRmiImages             \<comment> \<open>line 69: docker rmi -f $IMG_IDS\<close>
  | VolumePrune                 \<comment> \<open>line 77\<close>
  | NetworkPrune                \<comment> \<open>line 78\<close>
  | MkdirReleasesRoot           \<comment> \<open>line 87\<close>
  | MkdirReleaseDir             \<comment> \<open>line 91\<close>
  | GitClone                    \<comment> \<open>line 95\<close>
  | RmReleaseDir                \<comment> \<open>lines 99, 184, 190, 215, 223: rm -rf "$RELEASE_DIR"\<close>
  | CdReleaseDir                \<comment> \<open>lines 103, 180\<close>
  | ChownReleaseDir             \<comment> \<open>line 111\<close>
  | SwaponShow                  \<comment> \<open>line 121: swapon --show=NAME --noheadings\<close>
  | ChmodSwapfile               \<comment> \<open>lines 127, 149\<close>
  | MkswapExisting              \<comment> \<open>line 128\<close>
  | SwaponExisting              \<comment> \<open>line 129\<close>
  | Fallocate                   \<comment> \<open>line 143\<close>
  | DdProgress                  \<comment> \<open>line 147, first dd\<close>
  | DdPlain                     \<comment> \<open>line 147, second dd\<close>
  | MkswapNew                   \<comment> \<open>line 150\<close>
  | SwaponNew                   \<comment> \<open>line 151\<close>
  | ComposeDownRmi              \<comment> \<open>line 174: docker compose down --remove-orphans --rmi all\<close>
  | BuilderPrune                \<comment> \<open>line 177: docker builder prune -af\<close>
  | ComposeBuildNoCachePull     \<comment> \<open>line 182: docker compose build --no-cache --pull\<close>
  | ComposeUp                   \<comment> \<open>line 188: docker compose up -d --force-recreate\<close>
  | Curl                        \<comment> \<open>line 196: curl -sSf --max-time 5\<close>
  | Sleep2                      \<comment> \<open>line 197: sleep 2\<close>
  | MkdirAppDir                 \<comment> \<open>line 208\<close>
  | CpReleaseToApp              \<comment> \<open>line 211: cp -a "$RELEASE_DIR"/. "$APP_DIR"/\<close>
  | ChownAppDir                 \<comment> \<open>line 213\<close>
  | ComposeLogs                 \<comment> \<open>line 221\<close>
  | ComposeDown                 \<comment> \<open>line 222: docker compose down --remove-orphans\<close>
  | Swapoff                     \<comment> \<open>line 232\<close>
  | RmSwapfile                  \<comment> \<open>line 233\<close>

text \<open>
  What one \<^verbatim>\<open>curl\<close> can end in: no connection, no answer within
  \<^verbatim>\<open>--max-time\<close>, or an HTTP response with its status code.
\<close>

datatype curl_result = ConnectFailed | RequestTimedOut | HttpStatus nat

record env =
  APP_DIR :: string
  status :: "cmd \<Rightarrow> nat"            \<comment> \<open>exit status of each command, 0 is success\<close>
  compose_in :: "string \<Rightarrow> bool"     \<comment> \<open>a compose file lies in a directory other than APP_DIR\<close>
  repo :: dir                         \<comment> \<open>what git clone checks out\<close>
  MEM_MB :: int                       \<comment> \<open>line 114\<close>
  HEALTH_TIMEOUT :: int               \<comment> \<open>line 171\<close>
  probe :: "nat \<Rightarrow> curl_result"      \<comment> \<open>what the k-th curl of the run ends in\<close>
  old_images :: bool                  \<comment> \<open>line 66: images of prior releases are listed\<close>
  copied_before_failure :: "string \<Rightarrow> bool"
     \<comment> \<open>line 211: the files a cp that fails has written before it fails\<close>

record host =
  app_dir :: dir
  release_dir :: "dir option"         \<comment> \<open>None: the directory does not exist\<close>
  services :: services
  swap_exists :: bool                 \<comment> \<open>/swapfile is a file\<close>
  swap_active :: bool                 \<comment> \<open>/swapfile is listed by swapon --show\<close>
  CREATED_SWAP :: bool
  SWAPFILE_PATH :: string
  ELAPSED :: int
  polls :: nat                        \<comment> \<open>curl invocations so far\<close>
  log :: "cmd list"
  exit_code :: "nat option"           \<comment> \<open>None: the script is still running\<close>

definition ok :: "env \<Rightarrow> cmd \<Rightarrow> bool" where
  "ok e c = (status e c = 0)"

definition ran :: "cmd \<Rightarrow> host \<Rightarrow> host" where
  "ran c s = s\<lparr>log := log s @ [c]\<rparr>"

definition exit_with :: "nat \<Rightarrow> host \<Rightarrow> host" where
  "exit_with n s = s\<lparr>exit_code := Some n\<rparr>"

text \<open>
  The script runs under \<^verbatim>\<open>set -e\<close>: a command that fails outside a condition and
  without \<^verbatim>\<open>|| true\<close> ends the script with that command's status.
\<close>

definition must :: "env \<Rightarrow> cmd \<Rightarrow> (host \<Rightarrow> host) \<Rightarrow> host \<Rightarrow> host" where
  "must e c effect s =
     (if ok e c then effect (ran c s) else exit_with (status e c) (ran c s))"

text \<open>A command followed by \<^verbatim>\<open>|| true\<close>: its failure changes nothing.\<close>

definition tolerated :: "env \<Rightarrow> cmd \<Rightarrow> (host \<Rightarrow> host) \<Rightarrow> host \<Rightarrow> host" where
  "tolerated e c effect s = (if ok e c then effect (ran c s) else ran c s)"

text \<open>Sequencing: nothing runs after the script has exited.\<close>

definition andthen :: "host \<Rightarrow> (host \<Rightarrow> host) \<Rightarrow> host" where
  "andthen s f = (case exit_code s of None \<Rightarrow> f s | Some n \<Rightarrow> s)"

section \<open>The health wait (lines 194 to 202)\<close>

text \<open>
  \<^verbatim>\<open>curl -sSf\<close> exits 0 when it receives an HTTP response whose status is below 400:
  \<^verbatim>\<open>-f\<close> turns the statuses from 400 on into exit status 22, a refused connection is
  exit status 7 and a request cut by \<^verbatim>\<open>--max-time\<close> is exit status 28. The script
  passes no \<^verbatim>\<open>-L\<close>, so a redirect is the response curl reports.
\<close>

definition curl_sSf :: "curl_result \<Rightarrow> nat" where
  "curl_sSf r =
     (case r of
        ConnectFailed \<Rightarrow> 7
      | RequestTimedOut \<Rightarrow> 28
      | HttpStatus c \<Rightarrow> (if c < 400 then 0 else 22))"

text \<open>
  The loop
  \<^verbatim>\<open>until curl ... || [ $ELAPSED -ge $HEALTH_TIMEOUT ]; do sleep 2; ELAPSED=$((ELAPSED+2)); done\<close>:
  each round runs curl first and tests the counter only when curl failed. What the k-th
  curl ends in is given by the environment. The counter counts the sleeps, two seconds
  each; the time curl itself takes (up to the five seconds of \<^verbatim>\<open>--max-time\<close>) is not
  in it. Bash computes in 64-bit integers; the counter never passes the timeout by more
  than one, so it does not wrap for a timeout below \<open>2^63 - 2\<close>, and the model counts in
  unbounded integers.
\<close>

function until_healthy :: "env \<Rightarrow> host \<Rightarrow> host" where
  "until_healthy e s =
     (let s1 = (ran Curl s)\<lparr>polls := Suc (polls s)\<rparr> in
      if curl_sSf (probe e (polls s)) = 0 \<or> HEALTH_TIMEOUT e \<le> ELAPSED s then s1
      else until_healthy e ((ran Sleep2 s1)\<lparr>ELAPSED := ELAPSED s + 2\<rparr>))"
  by pat_completeness auto
termination
  by (relation "measure (\<lambda>(e, s). nat (HEALTH_TIMEOUT e - ELAPSED s))")
     (auto simp: ran_def)

declare until_healthy.simps [simp del]

text \<open>
  Line 195 resets the counter, the loop runs, and line 202 reads the result of the wait
  off the counter: the release is taken as healthy when \<^verbatim>\<open>ELAPSED\<close> is below the timeout.
\<close>

definition wait_for_application :: "env \<Rightarrow> host \<Rightarrow> host" where
  "wait_for_application e s = until_healthy e (s\<lparr>ELAPSED := 0\<rparr>)"

definition healthy :: "env \<Rightarrow> host \<Rightarrow> bool" where
  "healthy e s = (ELAPSED s < HEALTH_TIMEOUT e)"

section \<open>The steps of server_clone_and_deploy.sh\<close>

text \<open>Lines 19 to 27: git and docker must be installed.\<close>

definition basic_checks :: "env \<Rightarrow> host \<Rightarrow> host" where
  "basic_checks e s =
     (if \<not> ok e CommandVGit then exit_with 1 s
      else if \<not> ok e CommandVDocker then exit_with 1 s
      else s)"

definition stop_services :: "host \<Rightarrow> host" where
  "stop_services s = s\<lparr>services := NoServices\<rparr>"

definition remove_release :: "host \<Rightarrow> host" where
  "remove_release s = s\<lparr>release_dir := None\<rparr>"

text \<open>
  Lines 32 to 80, \<^verbatim>\<open>clean_existing_deploy\<close>. The test of line 38 looks for a compose
  file in a directory; for \<^verbatim>\<open>APP_DIR\<close> the answer is read off the host.
\<close>

definition has_compose :: "env \<Rightarrow> host \<Rightarrow> string \<Rightarrow> bool" where
  "has_compose e s d =
     (if d = APP_DIR e
      then app_dir s ''docker-compose.yml'' \<noteq> None \<or> app_dir s ''docker-compose.yaml'' \<noteq> None
      else compose_in e d)"

text \<open>The body of the loop of lines 37 to 43, on the pair of FOUND_COMPOSE and the host.\<close>

definition compose_down_in :: "env \<Rightarrow> string \<Rightarrow> bool \<times> host \<Rightarrow> bool \<times> host" where
  "compose_down_in e d fs =
     (if has_compose e (snd fs) d
      then (True, tolerated e (ComposeDownRmiIn d) stop_services (snd fs))
      else fs)"

text \<open>
  Lines 46 to 72, the fallback by container name: \<^verbatim>\<open>docker ps -aq\<close> lists containers
  exactly when something of the deployment is up.
\<close>

definition remove_named :: "env \<Rightarrow> string \<Rightarrow> host \<Rightarrow> host" where
  "remove_named e n s =
     (if services s \<noteq> NoServices then tolerated e (DockerRmNamed n) stop_services s else s)"

definition remove_by_name :: "env \<Rightarrow> host \<Rightarrow> host" where
  "remove_by_name e s =
     (let s1 = (if services s \<noteq> NoServices
                then tolerated e DockerRmContainers stop_services s else s);
          s2 = fold (remove_named e)
                 [''isy-healthcare-nginx'', ''isy-healthcare-mongodb'', ''isy-healthcare-certbot''] s1
      in if old_images e then tolerated e DockerRmiImages id s2 else s2)"

definition clean_existing_deploy :: "env \<Rightarrow> host \<Rightarrow> host" where
  "clean_existing_deploy e s =
     (let found = fold (compose_down_in e)
                    [APP_DIR e, ''/home/adminroot/isy.healthcare'', ''/home/adminroot/latest'']
                    (False, s);
          s1 = (if \<not> fst found then remove_by_name e (snd found) else snd found)
      in tolerated e NetworkPrune id (tolerated e VolumePrune id s1))"

text \<open>Lines 85 to 91: the releases root and the new release directory.\<close>

definition prepare_release :: "env \<Rightarrow> host \<Rightarrow> host" where
  "prepare_release e s =
     andthen (must e MkdirReleasesRoot id s)
       (must e MkdirReleaseDir
          (\<lambda>s. s\<lparr>release_dir :=
                   Some (case release_dir s of None \<Rightarrow> Map.empty | Some d \<Rightarrow> d)\<rparr>))"

text \<open>Lines 93 to 101: clone into the release directory, or remove it and exit 1.\<close>

definition clone_repository :: "env \<Rightarrow> host \<Rightarrow> host" where
  "clone_repository e s =
     (if ok e GitClone then (ran GitClone s)\<lparr>release_dir := Some (repo e)\<rparr>
      else exit_with 1 (tolerated e RmReleaseDir remove_release (ran GitClone s)))"

text \<open>Lines 103 to 111.\<close>

definition enter_release :: "env \<Rightarrow> host \<Rightarrow> host" where
  "enter_release e s = andthen (must e CdReleaseDir id s) (tolerated e ChownReleaseDir id)"

text \<open>
  Lines 113 to 162, the temporary swap. \<^verbatim>\<open>mkswap\<close> and then \<^verbatim>\<open>swapon\<close>, both as
  conditions (lines 128 to 137 for the file found, lines 150 to 159 for the file made):
  only when both succeed are SWAPFILE_PATH and CREATED_SWAP set.
\<close>

definition activate_swapfile :: "env \<Rightarrow> cmd \<Rightarrow> cmd \<Rightarrow> host \<Rightarrow> host" where
  "activate_swapfile e mk on s =
     (if ok e mk then
        (if ok e on
         then (ran on (ran mk s))
                \<lparr>swap_active := True, CREATED_SWAP := True, SWAPFILE_PATH := ''/swapfile''\<rparr>
         else ran on (ran mk s))
      else ran mk s)"

text \<open>Lines 125 to 138: /swapfile exists but is not active.\<close>

definition reuse_swapfile :: "env \<Rightarrow> host \<Rightarrow> host" where
  "reuse_swapfile e s =
     (if swap_exists s
      then activate_swapfile e MkswapExisting SwaponExisting (tolerated e ChmodSwapfile id s)
      else s)"

text \<open>
  Lines 141 to 160: fallocate, else dd with a progress display, else plain dd; the last
  dd is not guarded, so its failure ends the script.
\<close>

definition new_swapfile :: "env \<Rightarrow> host \<Rightarrow> host" where
  "new_swapfile e s =
     (let made = (\<lambda>s. s\<lparr>swap_exists := True\<rparr>);
          s1 = (if ok e Fallocate then made (ran Fallocate s)
                else if ok e DdProgress then made (ran DdProgress (ran Fallocate s))
                else must e DdPlain made (ran DdProgress (ran Fallocate s)))
      in andthen s1
           (\<lambda>s. activate_swapfile e MkswapNew SwaponNew (tolerated e ChmodSwapfile id s)))"

definition create_temporary_swap :: "env \<Rightarrow> host \<Rightarrow> host" where
  "create_temporary_swap e s =
     (let s0 = s\<lparr>CREATED_SWAP := False, SWAPFILE_PATH := []\<rparr> in
      if MEM_MB e < 2000 then
        (if ok e SwaponShow \<and> swap_active s0 then ran SwaponShow s0
         else
           (let s1 = reuse_swapfile e (ran SwaponShow s0)
            in if \<not> CREATED_SWAP s1 then new_swapfile e s1 else s1))
      else s0)"

text \<open>
  Lines 173 to 180: down first, prune the builder cache, enter the release. The script
  says of the \<^verbatim>\<open>docker compose down\<close> of line 174 that it stops any existing services,
  and the model takes it at its word: when the command succeeds, nothing is up.
\<close>

definition stop_existing_services :: "env \<Rightarrow> host \<Rightarrow> host" where
  "stop_existing_services e s =
     must e CdReleaseDir id
       (tolerated e BuilderPrune id (tolerated e ComposeDownRmi stop_services s))"

text \<open>Lines 182 to 186: the build; on failure the release is removed and the script exits 1.\<close>

definition build_release :: "env \<Rightarrow> host \<Rightarrow> host" where
  "build_release e s =
     (if ok e ComposeBuildNoCachePull then ran ComposeBuildNoCachePull s
      else exit_with 1
             (tolerated e RmReleaseDir remove_release (ran ComposeBuildNoCachePull s)))"

text \<open>Lines 188 to 192.\<close>

definition start_services :: "env \<Rightarrow> host \<Rightarrow> host" where
  "start_services e s =
     (if ok e ComposeUp then (ran ComposeUp s)\<lparr>services := NewServices\<rparr>
      else exit_with 1 (tolerated e RmReleaseDir remove_release (ran ComposeUp s)))"

text \<open>
  Lines 203 to 216, the promotion: \<^verbatim>\<open>cp -a "$RELEASE_DIR"/. "$APP_DIR"/\<close> writes every
  file of the release into APP_DIR, over a file of the same name, and leaves the other
  files of APP_DIR; then the release directory is removed. A cp that fails ends the script
  (\<^verbatim>\<open>set -e\<close>), and may have written some of the files before.
\<close>

definition copy_release :: "host \<Rightarrow> host" where
  "copy_release s =
     s\<lparr>app_dir := app_dir s ++ (case release_dir s of None \<Rightarrow> Map.empty | Some d \<Rightarrow> d)\<rparr>"

definition copy_part :: "env \<Rightarrow> host \<Rightarrow> host" where
  "copy_part e s =
     s\<lparr>app_dir := app_dir s ++
         (\<lambda>n. if copied_before_failure e n
              then (case release_dir s of None \<Rightarrow> None | Some d \<Rightarrow> d n) else None)\<rparr>"

definition promote :: "env \<Rightarrow> host \<Rightarrow> host" where
  "promote e s =
     andthen (must e MkdirAppDir id s)
       (\<lambda>s. andthen
              (if ok e CpReleaseToApp then copy_release (ran CpReleaseToApp s)
               else exit_with (status e CpReleaseToApp) (copy_part e (ran CpReleaseToApp s)))
          (\<lambda>s. tolerated e RmReleaseDir remove_release (tolerated e ChownAppDir id s)))"

text \<open>Lines 218 to 224: logs, down, remove the release, exit 1.\<close>

definition abort_release :: "env \<Rightarrow> host \<Rightarrow> host" where
  "abort_release e s =
     exit_with 1
       (tolerated e RmReleaseDir remove_release
          (tolerated e ComposeDown stop_services (tolerated e ComposeLogs id s)))"

text \<open>Lines 227 to 237.\<close>

definition remove_swap :: "env \<Rightarrow> host \<Rightarrow> host" where
  "remove_swap e s =
     (if CREATED_SWAP s then
        (if SWAPFILE_PATH s \<noteq> []
         then tolerated e RmSwapfile (\<lambda>s. s\<lparr>swap_exists := False\<rparr>)
                (tolerated e Swapoff (\<lambda>s. s\<lparr>swap_active := False\<rparr>) s)
         else s)
      else s)"

section \<open>The script as a whole\<close>

text \<open>The script starts with an empty record of commands and its variables unset.\<close>

definition start :: "host \<Rightarrow> host" where
  "start s = s\<lparr>CREATED_SWAP := False, SWAPFILE_PATH := [], ELAPSED := 0, polls := 0,
               log := [], exit_code := None\<rparr>"

text \<open>Lines 1 to 111: the checks, the cleanup, and the release cloned and entered.\<close>

definition staged :: "env \<Rightarrow> host \<Rightarrow> host" where
  "staged e s =
     andthen (basic_checks e (start s))
       (\<lambda>s. andthen (prepare_release e (clean_existing_deploy e s))
          (\<lambda>s. andthen (clone_repository e s) (enter_release e)))"

text \<open>Lines 1 to 180: everything before the build.\<close>

definition before_build :: "env \<Rightarrow> host \<Rightarrow> host" where
  "before_build e s =
     andthen (staged e s)
       (\<lambda>s. andthen (create_temporary_swap e s) (stop_existing_services e))"

text \<open>Lines 1 to 192: the release built and its services started.\<close>

definition started :: "env \<Rightarrow> host \<Rightarrow> host" where
  "started e s =
     andthen (before_build e s) (\<lambda>s. andthen (build_release e s) (start_services e))"

text \<open>Lines 1 to 200: the host when the wait has ended.\<close>

definition health_wait :: "env \<Rightarrow> host \<Rightarrow> host" where
  "health_wait e s = andthen (started e s) (wait_for_application e)"

text \<open>Lines 202 to 239: promote and remove the swap, or abort.\<close>

definition after_wait :: "env \<Rightarrow> host \<Rightarrow> host" where
  "after_wait e s =
     (if healthy e s
      then andthen (promote e s) (\<lambda>s. exit_with 0 (remove_swap e s))
      else abort_release e s)"

definition server_clone_and_deploy :: "env \<Rightarrow> host \<Rightarrow> host" where
  "server_clone_and_deploy e s = andthen (health_wait e s) (after_wait e)"

section \<open>The local development script\<close>

text \<open>
  The PowerShell script builds the image after stopping the container of the previous
  run, tries the build twice, and starts the previous container again when the build, the
  start or the health check fails. The model keeps its docker commands and the npm build;
  the copying of nginx.conf and .env and the writing of the compose file touch no
  container and decide nothing. The source lines are those of \<^verbatim>\<open>unnamed/part_000\<close>.
\<close>

datatype dev_cmd =
    DockerInfo            \<comment> \<open>line 8\<close>
  | NpmRunBuild           \<comment> \<open>line 117\<close>
  | DockerStop            \<comment> \<open>line 132: docker stop $oldContainerId\<close>
  | BuildCached           \<comment> \<open>line 142: docker compose build\<close>
  | DevBuilderPrune       \<comment> \<open>line 150: docker builder prune -af\<close>
  | BuildNoCache          \<comment> \<open>line 152: docker compose build --no-cache\<close>
  | DockerStart           \<comment> \<open>lines 161, 171, 193: docker start $oldContainerId\<close>
  | ComposeUpApp          \<comment> \<open>line 168: docker compose up -d app\<close>
  | InvokeWebRequest      \<comment> \<open>line 179\<close>
  | StartSleep            \<comment> \<open>line 182: Start-Sleep -Seconds 2\<close>
  | DevComposeLogs        \<comment> \<open>line 190\<close>

text \<open>
  \<^verbatim>\<open>Invoke-WebRequest\<close> inside \<^verbatim>\<open>try\<close>: it throws, and the empty \<^verbatim>\<open>catch\<close> swallows
  it, or it returns a response with a status code.
\<close>

datatype web_result = Threw | Response nat

record dev_env =
  dev_status :: "dev_cmd \<Rightarrow> nat"
  request :: "nat \<Rightarrow> web_result"      \<comment> \<open>what the i-th request of the loop ends in\<close>

record dev_host =
  old_container :: "(string \<times> bool) option"
     \<comment> \<open>the container isy-healthcare-dev of the previous run: its id, and whether it runs\<close>
  new_app :: bool                     \<comment> \<open>the app service of the new image is up\<close>
  oldContainerId :: "string option"
  buildSucceeded :: bool
  healthOk :: bool
  requests :: nat
  dev_log :: "dev_cmd list"
  dev_exit :: "nat option"

definition dev_ok :: "dev_env \<Rightarrow> dev_cmd \<Rightarrow> bool" where
  "dev_ok e c = (dev_status e c = 0)"

definition dev_ran :: "dev_cmd \<Rightarrow> dev_host \<Rightarrow> dev_host" where
  "dev_ran c s = s\<lparr>dev_log := dev_log s @ [c]\<rparr>"

definition dev_exit_with :: "nat \<Rightarrow> dev_host \<Rightarrow> dev_host" where
  "dev_exit_with n s = s\<lparr>dev_exit := Some n\<rparr>"

definition dev_andthen :: "dev_host \<Rightarrow> (dev_host \<Rightarrow> dev_host) \<Rightarrow> dev_host" where
  "dev_andthen s f = (case dev_exit s of None \<Rightarrow> f s | Some n \<Rightarrow> s)"

text \<open>The effect of docker stop and docker start on the container of the previous run.\<close>

definition set_running :: "bool \<Rightarrow> dev_host \<Rightarrow> dev_host" where
  "set_running b s =
     s\<lparr>old_container := (case old_container s of None \<Rightarrow> None | Some (i, r) \<Rightarrow> Some (i, b))\<rparr>"

text \<open>Lines 8 to 12 and 114 to 121.\<close>

definition dev_checks :: "dev_env \<Rightarrow> dev_host \<Rightarrow> dev_host" where
  "dev_checks e s =
     (if \<not> dev_ok e DockerInfo then dev_exit_with 1 (dev_ran DockerInfo s)
      else if \<not> dev_ok e NpmRunBuild
        then dev_exit_with 1 (dev_ran NpmRunBuild (dev_ran DockerInfo s))
      else dev_ran NpmRunBuild (dev_ran DockerInfo s))"

text \<open>Lines 123 to 135: the container found by name is stopped before the build.\<close>

definition stop_old_container :: "dev_env \<Rightarrow> dev_host \<Rightarrow> dev_host" where
  "stop_old_container e s =
     (case old_container s of
        None \<Rightarrow> s\<lparr>oldContainerId := None\<rparr>
      | Some (i, r) \<Rightarrow>
          (let s1 = dev_ran DockerStop (s\<lparr>oldContainerId := Some i\<rparr>)
           in if dev_ok e DockerStop then set_running False s1 else s1))"

text \<open>Lines 137 to 155: the two build attempts.\<close>

definition dev_build :: "dev_env \<Rightarrow> dev_host \<Rightarrow> dev_host" where
  "dev_build e s =
     (let s1 = dev_ran BuildCached (s\<lparr>buildSucceeded := False\<rparr>) in
      if dev_ok e BuildCached then s1\<lparr>buildSucceeded := True\<rparr>
      else
        (let s2 = dev_ran BuildNoCache (dev_ran DevBuilderPrune s1) in
         if dev_ok e BuildNoCache then s2\<lparr>buildSucceeded := True\<rparr> else s2))"

text \<open>Lines 159 to 162, 171 and 191 to 195: start the previous container, if there was one.\<close>

definition restart_previous :: "dev_env \<Rightarrow> dev_host \<Rightarrow> dev_host" where
  "restart_previous e s =
     (case oldContainerId s of
        None \<Rightarrow> s
      | Some i \<Rightarrow>
          (if dev_ok e DockerStart then set_running True (dev_ran DockerStart s)
           else dev_ran DockerStart s))"

text \<open>Lines 157 to 173.\<close>

definition dev_start_app :: "dev_env \<Rightarrow> dev_host \<Rightarrow> dev_host" where
  "dev_start_app e s =
     (if \<not> buildSucceeded s then dev_exit_with 1 (restart_previous e s)
      else if dev_ok e ComposeUpApp then (dev_ran ComposeUpApp s)\<lparr>new_app := True\<rparr>
      else dev_exit_with 1 (restart_previous e (dev_ran ComposeUpApp s)))"

text \<open>
  Lines 176 to 183, \<^verbatim>\<open>for ($i = 0; $i -lt 30; $i++)\<close>: the first argument counts the
  rounds left. Only status 200 sets healthOk and breaks; every other end of the request
  falls through to the sleep.
\<close>

fun dev_health_loop :: "nat \<Rightarrow> dev_env \<Rightarrow> dev_host \<Rightarrow> dev_host" where
  "dev_health_loop 0 e s = s"
| "dev_health_loop (Suc n) e s =
     (let s1 = (dev_ran InvokeWebRequest s)\<lparr>requests := Suc (requests s)\<rparr> in
      if request e (requests s) = Response 200 then s1\<lparr>healthOk := True\<rparr>
      else dev_health_loop n e (dev_ran StartSleep s1))"

definition dev_health_check :: "dev_env \<Rightarrow> dev_host \<Rightarrow> dev_host" where
  "dev_health_check e s = dev_health_loop 30 e (s\<lparr>healthOk := False, requests := 0\<rparr>)"

text \<open>Lines 185 to 197.\<close>

definition dev_finish :: "dev_env \<Rightarrow> dev_host \<Rightarrow> dev_host" where
  "dev_finish e s =
     (if healthOk s then dev_exit_with 0 s
      else dev_exit_with 1 (restart_previous e (dev_ran DevComposeLogs s)))"

definition dev_start :: "dev_host \<Rightarrow> dev_host" where
  "dev_start s = s\<lparr>oldContainerId := None, buildSucceeded := False, healthOk := False,
                   requests := 0, dev_log := [], dev_exit := None\<rparr>"

text \<open>
  The script up to the end of the build attempts, up to the start of the new app service,
  and as a whole.
\<close>

definition dev_built :: "dev_env \<Rightarrow> dev_host \<Rightarrow> dev_host" where
  "dev_built e s =
     dev_andthen (dev_checks e (dev_start s)) (\<lambda>s. dev_build e (stop_old_container e s))"

definition dev_started :: "dev_env \<Rightarrow> dev_host \<Rightarrow> dev_host" where
  "dev_started e s = dev_andthen (dev_built e s) (dev_start_app e)"

definition dev_deploy :: "dev_env \<Rightarrow> dev_host \<Rightarrow> dev_host" where
  "dev_deploy e s =
     dev_andthen (dev_started e s) (\<lambda>s. dev_finish e (dev_health_check e s))"

section \<open>The deploy script for the VPS\<close>

text \<open>
  The PowerShell script that uploads the sources and builds on the remote host also makes
  a temporary swap file there (lines 92 to 124 of \<^verbatim>\<open>unnamed/part_004\<close>). The remote build runs in
  a \<^verbatim>\<open>try\<close> whose \<^verbatim>\<open>finally\<close> removes the swap file when the script made it;
  \<^verbatim>\<open>ssh\<close> is a native command, whose failure is an exit status and not an exception.
\<close>

datatype vps_cmd =
    RemoteSwapOn          \<comment> \<open>line 99: fallocate or dd, chmod, mkswap, swapon over ssh\<close>
  | RemoteBuild           \<comment> \<open>line 117: down, prune, build, up over ssh\<close>
  | RemoteSwapOff         \<comment> \<open>line 122: swapoff and rm -f over ssh\<close>

record vps_env =
  vps_status :: "vps_cmd \<Rightarrow> nat"
  remote_memory_low :: bool           \<comment> \<open>the test of line 97\<close>

record vps_host =
  createdSwap :: bool
  buildExit :: nat
  vps_log :: "vps_cmd list"

definition vps_ran :: "vps_cmd \<Rightarrow> vps_host \<Rightarrow> vps_host" where
  "vps_ran c s = s\<lparr>vps_log := vps_log s @ [c]\<rparr>"

text \<open>Lines 94 to 106.\<close>

definition vps_prepare_swap :: "vps_env \<Rightarrow> vps_host \<Rightarrow> vps_host" where
  "vps_prepare_swap e s =
     (let s0 = s\<lparr>createdSwap := False\<rparr> in
      if remote_memory_low e
      then (vps_ran RemoteSwapOn s0)\<lparr>createdSwap := (vps_status e RemoteSwapOn = 0)\<rparr>
      else s0)"

text \<open>Lines 108 to 124: the body of the try, then the finally.\<close>

definition vps_build :: "vps_env \<Rightarrow> vps_host \<Rightarrow> vps_host" where
  "vps_build e s =
     (let s1 = (vps_ran RemoteBuild s)\<lparr>buildExit := vps_status e RemoteBuild\<rparr>
      in if createdSwap s1 then vps_ran RemoteSwapOff s1 else s1)"

definition vps_deploy :: "vps_env \<Rightarrow> vps_host \<Rightarrow> vps_host" where
  "vps_deploy e s = vps_build e (vps_prepare_swap e (s\<lparr>vps_log := []\<rparr>))"

section \<open>A host and an environment to run the scripts on\<close>

text \<open>
  A host that serves the previous release (its files in APP_DIR, among them a file that
  the new release no longer has), and an environment in which every command succeeds,
  memory is plentiful and the new release answers 200 at once. The theorems below are
  applied to them, and to variations of them.
\<close>

definition quiet_env :: env where
  "quiet_env =
     \<lparr>APP_DIR = ''/home/adminroot'', status = (\<lambda>c. 0), compose_in = (\<lambda>d. False),
      repo = [''app.js'' \<mapsto> ''v2'', ''docker-compose.yml'' \<mapsto> ''services''],
      MEM_MB = 4096, HEALTH_TIMEOUT = 60,
      probe = (\<lambda>k. HttpStatus 200), old_images = False,
      copied_before_failure = (\<lambda>n. False)\<rparr>"

definition live_host :: host where
  "live_host =
     \<lparr>app_dir = [''app.js'' \<mapsto> ''v1'', ''docker-compose.yml'' \<mapsto> ''services'',
                 ''notes.txt'' \<mapsto> ''kept''],
      release_dir = None, services = OldServices, swap_exists = False, swap_active = False,
      CREATED_SWAP = False, SWAPFILE_PATH = [], ELAPSED = 0, polls = 0, log = [],
      exit_code = None\<rparr>"

definition late_env :: env where
  "late_env = quiet_env\<lparr>HEALTH_TIMEOUT := 4,
     probe := (\<lambda>k. if k < 2 then ConnectFailed else HttpStatus 200)\<rparr>"

definition low_memory_env :: env where
  "low_memory_env = quiet_env\<lparr>MEM_MB := 1024\<rparr>"

definition build_fails :: "env \<Rightarrow> env" where
  "build_fails e = e\<lparr>status := (\<lambda>c. if c = ComposeBuildNoCachePull then 1 else 0)\<rparr>"

definition copy_fails :: "env \<Rightarrow> env" where
  "copy_fails e = e\<lparr>status := (\<lambda>c. if c = CpReleaseToApp then 1 else 0)\<rparr>"

definition swapfile_present :: "host \<Rightarrow> host" where
  "swapfile_present s = s\<lparr>swap_exists := True\<rparr>"

text \<open>The same for the development script: a container of the previous run is running.\<close>

definition dev_quiet :: dev_env where
  "dev_quiet = \<lparr>dev_status = (\<lambda>c. 0), request = (\<lambda>i. Response 200)\<rparr>"

definition dev_live :: dev_host where
  "dev_live =
     \<lparr>old_container = Some (''c0ffee'', True), new_app = False, oldContainerId = None,
      buildSucceeded = False, healthOk = False, requests = 0, dev_log = [], dev_exit = None\<rparr>"

definition never_answers :: "env \<Rightarrow> env" where
  "never_answers e = e\<lparr>HEALTH_TIMEOUT := 4, probe := (\<lambda>k. ConnectFailed)\<rparr>"

definition redirects :: "env \<Rightarrow> env" where
  "redirects e = e\<lparr>probe := (\<lambda>k. HttpStatus 301)\<rparr>"

definition dev_builds_fail :: "dev_env \<Rightarrow> dev_env" where
  "dev_builds_fail d =
     d\<lparr>dev_status := (\<lambda>c. if c = BuildCached \<or> c = BuildNoCache then 1 else 0)\<rparr>"

definition dev_never_answers :: "dev_env \<Rightarrow> dev_env" where
  "dev_never_answers d = d\<lparr>request := (\<lambda>i. Threw)\<rparr>"

section \<open>What a step leaves alone\<close>

text \<open>
  Each step of the script is followed by a lemma of one shape: an observation \<open>g\<close> of the
  host that does not see the commands the step runs, nor the fields it writes, has the
  same value after the step. With \<open>g\<close> a field this is a frame property; with \<open>g\<close> a
  filter of the record of commands it says which commands the step can run.
\<close>

lemma tolerated_keeps:
  assumes "\<And>t. g (ran c t) = g t" "\<And>t. g (f t) = g t"
  shows "g (tolerated e c f s) = g s"
  using assms by (simp add: tolerated_def)

lemma must_keeps:
  assumes "\<And>t. g (ran c t) = g t" "\<And>x t. g (t\<lparr>exit_code := x\<rparr>) = g t" "\<And>t. g (f t) = g t"
  shows "g (must e c f s) = g s"
  using assms by (simp add: must_def exit_with_def)

lemma andthen_keeps:
  assumes "\<And>t. g (f t) = g t"
  shows "g (andthen s f) = g s"
  using assms by (simp add: andthen_def split: option.splits)

lemma exit_with_keeps:
  assumes "\<And>x t. g (t\<lparr>exit_code := x\<rparr>) = g t"
  shows "g (exit_with n s) = g s"
  using assms by (simp add: exit_with_def)

lemma basic_checks_keeps:
  assumes "\<And>x t. g (t\<lparr>exit_code := x\<rparr>) = g t"
  shows "g (basic_checks e s) = g s"
  using assms by (simp add: basic_checks_def exit_with_def)

lemma compose_down_in_keeps:
  assumes "\<And>d t. g (ran (ComposeDownRmiIn d) t) = g t" "\<And>x t. g (t\<lparr>services := x\<rparr>) = g t"
  shows "g (snd (compose_down_in e d fs)) = g (snd fs)"
  using assms by (simp add: compose_down_in_def tolerated_keeps stop_services_def)

lemma remove_named_keeps:
  assumes "\<And>n t. g (ran (DockerRmNamed n) t) = g t" "\<And>x t. g (t\<lparr>services := x\<rparr>) = g t"
  shows "g (remove_named e n s) = g s"
  using assms by (simp add: remove_named_def tolerated_keeps stop_services_def)

lemma remove_by_name_keeps:
  assumes "\<And>t. g (ran DockerRmContainers t) = g t" "\<And>n t. g (ran (DockerRmNamed n) t) = g t"
    "\<And>t. g (ran DockerRmiImages t) = g t" "\<And>x t. g (t\<lparr>services := x\<rparr>) = g t"
  shows "g (remove_by_name e s) = g s"
  using assms
  by (simp add: remove_by_name_def Let_def remove_named_keeps tolerated_keeps stop_services_def)

lemma clean_existing_deploy_keeps:
  assumes "\<And>d t. g (ran (ComposeDownRmiIn d) t) = g t"
    "\<And>t. g (ran DockerRmContainers t) = g t" "\<And>n t. g (ran (DockerRmNamed n) t) = g t"
    "\<And>t. g (ran DockerRmiImages t) = g t" "\<And>t. g (ran VolumePrune t) = g t"
    "\<And>t. g (ran NetworkPrune t) = g t" "\<And>x t. g (t\<lparr>services := x\<rparr>) = g t"
  shows "g (clean_existing_deploy e s) = g s"
  using assms
  by (simp add: clean_existing_deploy_def Let_def remove_by_name_keeps tolerated_keeps
      compose_down_in_keeps)

lemma prepare_release_keeps:
  assumes "\<And>t. g (ran MkdirReleasesRoot t) = g t" "\<And>t. g (ran MkdirReleaseDir t) = g t"
    "\<And>x t. g (t\<lparr>exit_code := x\<rparr>) = g t" "\<And>x t. g (t\<lparr>release_dir := x\<rparr>) = g t"
  shows "g (prepare_release e s) = g s"
  using assms by (simp add: prepare_release_def andthen_keeps must_keeps)

lemma clone_repository_keeps:
  assumes "\<And>t. g (ran GitClone t) = g t" "\<And>t. g (ran RmReleaseDir t) = g t"
    "\<And>x t. g (t\<lparr>exit_code := x\<rparr>) = g t" "\<And>x t. g (t\<lparr>release_dir := x\<rparr>) = g t"
  shows "g (clone_repository e s) = g s"
  using assms
  by (simp add: clone_repository_def exit_with_def tolerated_keeps remove_release_def)

lemma enter_release_keeps:
  assumes "\<And>t. g (ran CdReleaseDir t) = g t" "\<And>t. g (ran ChownReleaseDir t) = g t"
    "\<And>x t. g (t\<lparr>exit_code := x\<rparr>) = g t"
  shows "g (enter_release e s) = g s"
  using assms by (simp add: enter_release_def andthen_keeps must_keeps tolerated_keeps)

lemma staged_keeps:
  assumes "\<And>d t. g (ran (ComposeDownRmiIn d) t) = g t"
    "\<And>t. g (ran DockerRmContainers t) = g t" "\<And>n t. g (ran (DockerRmNamed n) t) = g t"
    "\<And>t. g (ran DockerRmiImages t) = g t" "\<And>t. g (ran VolumePrune t) = g t"
    "\<And>t. g (ran NetworkPrune t) = g t"
    "\<And>t. g (ran MkdirReleasesRoot t) = g t" "\<And>t. g (ran MkdirReleaseDir t) = g t"
    "\<And>t. g (ran GitClone t) = g t" "\<And>t. g (ran RmReleaseDir t) = g t"
    "\<And>t. g (ran CdReleaseDir t) = g t" "\<And>t. g (ran ChownReleaseDir t) = g t"
    "\<And>x t. g (t\<lparr>services := x\<rparr>) = g t" "\<And>x t. g (t\<lparr>release_dir := x\<rparr>) = g t"
    "\<And>x t. g (t\<lparr>exit_code := x\<rparr>) = g t"
  shows "g (staged e s) = g (start s)"
proof -
  have "g (staged e s) = g (basic_checks e (start s))"
    unfolding staged_def using assms
    by (intro andthen_keeps)
      (simp add: andthen_keeps enter_release_keeps clone_repository_keeps prepare_release_keeps
        clean_existing_deploy_keeps)
  then show ?thesis using assms by (simp add: basic_checks_keeps)
qed

lemma activate_swapfile_keeps:
  assumes "\<And>t. g (ran mk t) = g t" "\<And>t. g (ran on t) = g t"
    "\<And>x t. g (t\<lparr>swap_active := x\<rparr>) = g t"
    "\<And>x t. g (t\<lparr>CREATED_SWAP := x\<rparr>) = g t" "\<And>x t. g (t\<lparr>SWAPFILE_PATH := x\<rparr>) = g t"
  shows "g (activate_swapfile e mk on s) = g s"
  using assms by (simp add: activate_swapfile_def)

lemma reuse_swapfile_keeps:
  assumes "\<And>t. g (ran ChmodSwapfile t) = g t" "\<And>t. g (ran MkswapExisting t) = g t"
    "\<And>t. g (ran SwaponExisting t) = g t" "\<And>x t. g (t\<lparr>swap_active := x\<rparr>) = g t"
    "\<And>x t. g (t\<lparr>CREATED_SWAP := x\<rparr>) = g t" "\<And>x t. g (t\<lparr>SWAPFILE_PATH := x\<rparr>) = g t"
  shows "g (reuse_swapfile e s) = g s"
  using assms by (simp add: reuse_swapfile_def activate_swapfile_keeps tolerated_keeps)

lemma new_swapfile_keeps:
  assumes "\<And>t. g (ran ChmodSwapfile t) = g t" "\<And>t. g (ran Fallocate t) = g t"
    "\<And>t. g (ran DdProgress t) = g t" "\<And>t. g (ran DdPlain t) = g t"
    "\<And>t. g (ran MkswapNew t) = g t" "\<And>t. g (ran SwaponNew t) = g t"
    "\<And>x t. g (t\<lparr>exit_code := x\<rparr>) = g t"
    "\<And>x t. g (t\<lparr>swap_active := x\<rparr>) = g t" "\<And>x t. g (t\<lparr>swap_exists := x\<rparr>) = g t"
    "\<And>x t. g (t\<lparr>CREATED_SWAP := x\<rparr>) = g t" "\<And>x t. g (t\<lparr>SWAPFILE_PATH := x\<rparr>) = g t"
  shows "g (new_swapfile e s) = g s"
  using assms
  by (simp add: new_swapfile_def Let_def activate_swapfile_keeps andthen_keeps must_keeps
      tolerated_keeps)

lemma create_temporary_swap_keeps:
  assumes "\<And>t. g (ran SwaponShow t) = g t"
    "\<And>t. g (ran ChmodSwapfile t) = g t" "\<And>t. g (ran MkswapExisting t) = g t"
    "\<And>t. g (ran SwaponExisting t) = g t" "\<And>t. g (ran Fallocate t) = g t"
    "\<And>t. g (ran DdProgress t) = g t" "\<And>t. g (ran DdPlain t) = g t"
    "\<And>t. g (ran MkswapNew t) = g t" "\<And>t. g (ran SwaponNew t) = g t"
    "\<And>x t. g (t\<lparr>exit_code := x\<rparr>) = g t"
    "\<And>x t. g (t\<lparr>swap_active := x\<rparr>) = g t" "\<And>x t. g (t\<lparr>swap_exists := x\<rparr>) = g t"
    "\<And>x t. g (t\<lparr>CREATED_SWAP := x\<rparr>) = g t" "\<And>x t. g (t\<lparr>SWAPFILE_PATH := x\<rparr>) = g t"
  shows "g (create_temporary_swap e s) = g s"
proof -
  have "g (s\<lparr>CREATED_SWAP := False, SWAPFILE_PATH := []\<rparr>) = g s"
    using assms(13,14) by simp
  with assms show ?thesis
    by (simp add: create_temporary_swap_def Let_def reuse_swapfile_keeps new_swapfile_keeps)
qed

lemma stop_existing_services_keeps:
  assumes "\<And>t. g (ran ComposeDownRmi t) = g t" "\<And>t. g (ran BuilderPrune t) = g t"
    "\<And>t. g (ran CdReleaseDir t) = g t"
    "\<And>x t. g (t\<lparr>exit_code := x\<rparr>) = g t" "\<And>x t. g (t\<lparr>services := x\<rparr>) = g t"
  shows "g (stop_existing_services e s) = g s"
  using assms
  by (simp add: stop_existing_services_def must_keeps tolerated_keeps stop_services_def)

lemma build_release_keeps:
  assumes "\<And>t. g (ran ComposeBuildNoCachePull t) = g t" "\<And>t. g (ran RmReleaseDir t) = g t"
    "\<And>x t. g (t\<lparr>exit_code := x\<rparr>) = g t" "\<And>x t. g (t\<lparr>release_dir := x\<rparr>) = g t"
  shows "g (build_release e s) = g s"
  using assms
  by (simp add: build_release_def exit_with_def tolerated_keeps remove_release_def)

lemma start_services_keeps:
  assumes "\<And>t. g (ran ComposeUp t) = g t" "\<And>t. g (ran RmReleaseDir t) = g t"
    "\<And>x t. g (t\<lparr>exit_code := x\<rparr>) = g t" "\<And>x t. g (t\<lparr>release_dir := x\<rparr>) = g t"
    "\<And>x t. g (t\<lparr>services := x\<rparr>) = g t"
  shows "g (start_services e s) = g s"
  using assms
  by (simp add: start_services_def exit_with_def tolerated_keeps remove_release_def)

lemma before_build_keeps:
  assumes "\<And>d t. g (ran (ComposeDownRmiIn d) t) = g t"
    "\<And>t. g (ran DockerRmContainers t) = g t" "\<And>n t. g (ran (DockerRmNamed n) t) = g t"
    "\<And>t. g (ran DockerRmiImages t) = g t" "\<And>t. g (ran VolumePrune t) = g t"
    "\<And>t. g (ran NetworkPrune t) = g t"
    "\<And>t. g (ran MkdirReleasesRoot t) = g t" "\<And>t. g (ran MkdirReleaseDir t) = g t"
    "\<And>t. g (ran GitClone t) = g t" "\<And>t. g (ran RmReleaseDir t) = g t"
    "\<And>t. g (ran CdReleaseDir t) = g t" "\<And>t. g (ran ChownReleaseDir t) = g t"
    "\<And>t. g (ran SwaponShow t) = g t"
    "\<And>t. g (ran ChmodSwapfile t) = g t" "\<And>t. g (ran MkswapExisting t) = g t"
    "\<And>t. g (ran SwaponExisting t) = g t" "\<And>t. g (ran Fallocate t) = g t"
    "\<And>t. g (ran DdProgress t) = g t" "\<And>t. g (ran DdPlain t) = g t"
    "\<And>t. g (ran MkswapNew t) = g t" "\<And>t. g (ran SwaponNew t) = g t"
    "\<And>t. g (ran ComposeDownRmi t) = g t" "\<And>t. g (ran BuilderPrune t) = g t"
    "\<And>x t. g (t\<lparr>services := x\<rparr>) = g t" "\<And>x t. g (t\<lparr>release_dir := x\<rparr>) = g t"
    "\<And>x t. g (t\<lparr>exit_code := x\<rparr>) = g t"
    "\<And>x t. g (t\<lparr>swap_active := x\<rparr>) = g t" "\<And>x t. g (t\<lparr>swap_exists := x\<rparr>) = g t"
    "\<And>x t. g (t\<lparr>CREATED_SWAP := x\<rparr>) = g t" "\<And>x t. g (t\<lparr>SWAPFILE_PATH := x\<rparr>) = g t"
  shows "g (before_build e s) = g (start s)"
proof -
  have "g (before_build e s) = g (staged e s)"
    unfolding before_build_def using assms
    by (intro andthen_keeps)
      (simp add: andthen_keeps create_temporary_swap_keeps stop_existing_services_keeps)
  then show ?thesis using assms by (simp add: staged_keeps)
qed

lemma started_keeps:
  assumes "\<And>t. g (ran ComposeBuildNoCachePull t) = g t" "\<And>t. g (ran ComposeUp t) = g t"
    "\<And>t. g (ran RmReleaseDir t) = g t"
    "\<And>x t. g (t\<lparr>exit_code := x\<rparr>) = g t" "\<And>x t. g (t\<lparr>release_dir := x\<rparr>) = g t"
    "\<And>x t. g (t\<lparr>services := x\<rparr>) = g t"
  shows "g (started e s) = g (before_build e s)"
  unfolding started_def using assms
  by (intro andthen_keeps) (simp add: andthen_keeps build_release_keeps start_services_keeps)

lemma until_healthy_keeps:
  assumes "\<And>t. g (ran Curl t) = g t" "\<And>t. g (ran Sleep2 t) = g t"
    "\<And>x t. g (t\<lparr>polls := x\<rparr>) = g t" "\<And>x t. g (t\<lparr>ELAPSED := x\<rparr>) = g t"
  shows "g (until_healthy e s) = g s"
proof (induction e s rule: until_healthy.induct)
  case (1 e s)
  show ?case
  proof (cases "curl_sSf (probe e (polls s)) = 0 \<or> HEALTH_TIMEOUT e \<le> ELAPSED s")
    case True
    then have "until_healthy e s = (ran Curl s)\<lparr>polls := Suc (polls s)\<rparr>"
      by (subst until_healthy.simps) (simp add: Let_def)
    then show ?thesis using assms by simp
  next
    case False
    then have "until_healthy e s =
        until_healthy e ((ran Sleep2 ((ran Curl s)\<lparr>polls := Suc (polls s)\<rparr>))\<lparr>ELAPSED := ELAPSED s + 2\<rparr>)"
      by (subst until_healthy.simps) (simp add: Let_def)
    with 1 [OF refl False] show ?thesis using assms by simp
  qed
qed

lemma wait_for_application_keeps:
  assumes "\<And>t. g (ran Curl t) = g t" "\<And>t. g (ran Sleep2 t) = g t"
    "\<And>x t. g (t\<lparr>polls := x\<rparr>) = g t" "\<And>x t. g (t\<lparr>ELAPSED := x\<rparr>) = g t"
  shows "g (wait_for_application e s) = g s"
  using assms by (simp add: wait_for_application_def until_healthy_keeps)

lemma health_wait_keeps:
  assumes "\<And>t. g (ran Curl t) = g t" "\<And>t. g (ran Sleep2 t) = g t"
    "\<And>x t. g (t\<lparr>polls := x\<rparr>) = g t" "\<And>x t. g (t\<lparr>ELAPSED := x\<rparr>) = g t"
  shows "g (health_wait e s) = g (started e s)"
  unfolding health_wait_def using assms
  by (intro andthen_keeps) (simp add: wait_for_application_keeps)

lemma promote_keeps:
  assumes "\<And>t. g (ran MkdirAppDir t) = g t" "\<And>t. g (ran CpReleaseToApp t) = g t"
    "\<And>t. g (ran ChownAppDir t) = g t" "\<And>t. g (ran RmReleaseDir t) = g t"
    "\<And>x t. g (t\<lparr>exit_code := x\<rparr>) = g t" "\<And>x t. g (t\<lparr>release_dir := x\<rparr>) = g t"
    "\<And>x t. g (t\<lparr>app_dir := x\<rparr>) = g t"
  shows "g (promote e s) = g s"
  using assms
  by (simp add: promote_def andthen_keeps must_keeps tolerated_keeps exit_with_keeps
      remove_release_def copy_release_def copy_part_def)

lemma abort_release_keeps:
  assumes "\<And>t. g (ran ComposeLogs t) = g t" "\<And>t. g (ran ComposeDown t) = g t"
    "\<And>t. g (ran RmReleaseDir t) = g t"
    "\<And>x t. g (t\<lparr>exit_code := x\<rparr>) = g t" "\<And>x t. g (t\<lparr>release_dir := x\<rparr>) = g t"
    "\<And>x t. g (t\<lparr>services := x\<rparr>) = g t"
  shows "g (abort_release e s) = g s"
  using assms
  by (simp add: abort_release_def exit_with_def tolerated_keeps remove_release_def
      stop_services_def)

lemma remove_swap_keeps:
  assumes "\<And>t. g (ran Swapoff t) = g t" "\<And>t. g (ran RmSwapfile t) = g t"
    "\<And>x t. g (t\<lparr>swap_active := x\<rparr>) = g t" "\<And>x t. g (t\<lparr>swap_exists := x\<rparr>) = g t"
  shows "g (remove_swap e s) = g s"
  using assms by (simp add: remove_swap_def tolerated_keeps)

lemma after_wait_keeps:
  assumes "\<And>t. g (ran MkdirAppDir t) = g t" "\<And>t. g (ran CpReleaseToApp t) = g t"
    "\<And>t. g (ran ChownAppDir t) = g t" "\<And>t. g (ran RmReleaseDir t) = g t"
    "\<And>t. g (ran ComposeLogs t) = g t" "\<And>t. g (ran ComposeDown t) = g t"
    "\<And>t. g (ran Swapoff t) = g t" "\<And>t. g (ran RmSwapfile t) = g t"
    "\<And>x t. g (t\<lparr>exit_code := x\<rparr>) = g t" "\<And>x t. g (t\<lparr>release_dir := x\<rparr>) = g t"
    "\<And>x t. g (t\<lparr>app_dir := x\<rparr>) = g t" "\<And>x t. g (t\<lparr>services := x\<rparr>) = g t"
    "\<And>x t. g (t\<lparr>swap_active := x\<rparr>) = g t" "\<And>x t. g (t\<lparr>swap_exists := x\<rparr>) = g t"
  shows "g (after_wait e s) = g s"
proof (cases "healthy e s")
  case True
  have "g (andthen (promote e s) (\<lambda>s. exit_with 0 (remove_swap e s))) = g (promote e s)"
    using assms by (intro andthen_keeps) (simp add: exit_with_keeps remove_swap_keeps)
  with True assms show ?thesis by (simp add: after_wait_def promote_keeps)
next
  case False
  with assms show ?thesis by (simp add: after_wait_def abort_release_keeps)
qed

lemma andthen_running:
  assumes "exit_code (andthen s f) = None"
  shows "exit_code s = None" and "andthen s f = f s"
  using assms by (auto simp: andthen_def split: option.splits)

lemma andthen_exited:
  assumes "exit_code s = Some n"
  shows "andthen s f = s"
  using assms by (simp add: andthen_def)

section \<open>The health wait ends, and on which poll\<close>

lemma until_healthy_polls:
  "polls s < polls (until_healthy e s) \<and>
   ELAPSED (until_healthy e s) = ELAPSED s + 2 * int (polls (until_healthy e s) - Suc (polls s)) \<and>
   (curl_sSf (probe e (polls (until_healthy e s) - 1)) = 0 \<or>
    HEALTH_TIMEOUT e \<le> ELAPSED (until_healthy e s)) \<and>
   (\<forall>j. polls s \<le> j \<and> Suc j < polls (until_healthy e s) \<longrightarrow>
        curl_sSf (probe e j) \<noteq> 0 \<and> ELAPSED s + 2 * int (j - polls s) < HEALTH_TIMEOUT e)"
proof (induction e s rule: until_healthy.induct)
  case (1 e s)
  show ?case
  proof (cases "curl_sSf (probe e (polls s)) = 0 \<or> HEALTH_TIMEOUT e \<le> ELAPSED s")
    case True
    then have "until_healthy e s = (ran Curl s)\<lparr>polls := Suc (polls s)\<rparr>"
      by (subst until_healthy.simps) (simp add: Let_def)
    with True show ?thesis by (simp add: ran_def)
  next
    case False
    let ?t = "(ran Sleep2 ((ran Curl s)\<lparr>polls := Suc (polls s)\<rparr>))\<lparr>ELAPSED := ELAPSED s + 2\<rparr>"
    have step: "until_healthy e s = until_healthy e ?t"
      using False by (subst until_healthy.simps) (simp add: Let_def)
    have pt: "polls ?t = Suc (polls s)" and et: "ELAPSED ?t = ELAPSED s + 2"
      by (simp_all add: ran_def)
    note ih = 1 [OF refl False, unfolded pt et]
    let ?u = "until_healthy e ?t"
    from ih have lt: "Suc (polls s) < polls ?u" by blast
    from ih have el: "ELAPSED ?u = ELAPSED s + 2 + 2 * int (polls ?u - Suc (Suc (polls s)))"
      by blast
    from ih have last: "curl_sSf (probe e (polls ?u - 1)) = 0 \<or> HEALTH_TIMEOUT e \<le> ELAPSED ?u"
      by blast
    from ih have earlier: "\<And>j. Suc (polls s) \<le> j \<Longrightarrow> Suc j < polls ?u \<Longrightarrow>
        curl_sSf (probe e j) \<noteq> 0 \<and> ELAPSED s + 2 + 2 * int (j - Suc (polls s)) < HEALTH_TIMEOUT e"
      by blast
    have "polls s < polls ?u" using lt by simp
    moreover have "ELAPSED ?u = ELAPSED s + 2 * int (polls ?u - Suc (polls s))"
      using el lt by (simp add: Suc_diff_Suc)
    moreover note last
    moreover have "curl_sSf (probe e j) \<noteq> 0 \<and> ELAPSED s + 2 * int (j - polls s) < HEALTH_TIMEOUT e"
      if "polls s \<le> j" "Suc j < polls ?u" for j
    proof (cases "j = polls s")
      case True
      with False show ?thesis by simp
    next
      case neq: False
      with that have "Suc (polls s) \<le> j" by simp
      from earlier [OF this that(2)] this show ?thesis by (simp add: Suc_diff_le)
    qed
    ultimately show ?thesis unfolding step by blast
  qed
qed

text \<open>The wait entered with no poll made yet: the last poll is number \<open>polls - 1\<close>.\<close>

lemma wait_result:
  assumes "polls s = 0"
  shows "0 < polls (wait_for_application e s)"
    and "ELAPSED (wait_for_application e s) = 2 * int (polls (wait_for_application e s) - 1)"
    and "curl_sSf (probe e (polls (wait_for_application e s) - 1)) = 0 \<or>
         HEALTH_TIMEOUT e \<le> ELAPSED (wait_for_application e s)"
    and "\<And>j. Suc j < polls (wait_for_application e s) \<Longrightarrow>
         curl_sSf (probe e j) \<noteq> 0 \<and> 2 * int j < HEALTH_TIMEOUT e"
proof -
  let ?s = "s\<lparr>ELAPSED := 0\<rparr>"
  let ?u = "until_healthy e ?s"
  have w: "wait_for_application e s = ?u" by (simp add: wait_for_application_def)
  have p: "polls ?s = 0" and z: "ELAPSED ?s = 0" using assms by simp_all
  note u = until_healthy_polls [of ?s e, unfolded p z]
  from u have "0 < polls ?u" by blast
  then show "0 < polls (wait_for_application e s)" unfolding w .
  from u have "ELAPSED ?u = 0 + 2 * int (polls ?u - Suc 0)" by blast
  then show "ELAPSED (wait_for_application e s) = 2 * int (polls (wait_for_application e s) - 1)"
    unfolding w by simp
  from u show "curl_sSf (probe e (polls (wait_for_application e s) - 1)) = 0 \<or>
         HEALTH_TIMEOUT e \<le> ELAPSED (wait_for_application e s)"
    unfolding w by blast
  fix j
  assume "Suc j < polls (wait_for_application e s)"
  then have "0 \<le> j \<and> Suc j < polls ?u" unfolding w by simp
  with u have "curl_sSf (probe e j) \<noteq> 0 \<and> 0 + 2 * int (j - 0) < HEALTH_TIMEOUT e"
    by blast
  then show "curl_sSf (probe e j) \<noteq> 0 \<and> 2 * int j < HEALTH_TIMEOUT e" by simp
qed

lemma first_success:
  assumes "polls s = 0" "curl_sSf (probe e k) = 0"
    "\<And>j. j < k \<Longrightarrow> curl_sSf (probe e j) \<noteq> 0 \<and> 2 * int j < HEALTH_TIMEOUT e"
  shows "polls (wait_for_application e s) = Suc k"
    and "ELAPSED (wait_for_application e s) = 2 * int k"
proof -
  let ?w = "wait_for_application e s"
  note w = wait_result [OF assms(1), where e = e]
  have "\<not> polls ?w - 1 < k"
  proof
    assume lt: "polls ?w - 1 < k"
    from assms(3) [OF lt] w(2) w(3) show False by simp
  qed
  moreover have "\<not> k < polls ?w - 1"
  proof
    assume "k < polls ?w - 1"
    then have "Suc k < polls ?w" by simp
    from w(4) [OF this] assms(2) show False by simp
  qed
  ultimately have "polls ?w - 1 = k" by simp
  with w(1) show "polls ?w = Suc k" by simp
  with w(2) show "ELAPSED ?w = 2 * int k" by simp
qed

text \<open>
  An endpoint that never answers: the wait ends, after one poll for every two seconds of
  the timeout and one more, with false.
\<close>

lemma wait_never_succeeds:
  assumes "polls s = 0" "\<forall>k. curl_sSf (probe e k) \<noteq> 0" "0 \<le> HEALTH_TIMEOUT e"
  shows "\<not> healthy e (wait_for_application e s)"
    and "int (polls (wait_for_application e s)) = (HEALTH_TIMEOUT e + 1) div 2 + 1"
    and "HEALTH_TIMEOUT e \<le> ELAPSED (wait_for_application e s)"
    and "ELAPSED (wait_for_application e s) < HEALTH_TIMEOUT e + 2"
proof -
  let ?w = "wait_for_application e s"
  note w = wait_result [OF assms(1), where e = e]
  from w(3) assms(2) show up: "HEALTH_TIMEOUT e \<le> ELAPSED ?w" by simp
  then show "\<not> healthy e ?w" by (simp add: healthy_def)
  show below: "ELAPSED ?w < HEALTH_TIMEOUT e + 2"
  proof (cases "polls ?w - 1")
    case 0
    with w(2) assms(3) show ?thesis by simp
  next
    case (Suc j)
    then have "Suc j < polls ?w" by simp
    from w(4) [OF this] Suc w(2) show ?thesis by simp
  qed
  from up below w(1) w(2) show "int (polls ?w) = (HEALTH_TIMEOUT e + 1) div 2 + 1"
    by (simp add: int_ops)
qed

lemma healthy_first_success:
  assumes "polls s = 0" "healthy e (wait_for_application e s)"
  shows "\<exists>k. curl_sSf (probe e k) = 0 \<and> 2 * int k < HEALTH_TIMEOUT e \<and>
             (\<forall>j<k. curl_sSf (probe e j) \<noteq> 0)"
proof -
  let ?w = "wait_for_application e s"
  note w = wait_result [OF assms(1), where e = e]
  from assms(2) have lt: "ELAPSED ?w < HEALTH_TIMEOUT e" by (simp add: healthy_def)
  with w(3) have "curl_sSf (probe e (polls ?w - 1)) = 0" by simp
  moreover from lt w(2) have "2 * int (polls ?w - 1) < HEALTH_TIMEOUT e" by simp
  moreover have "\<forall>j<polls ?w - 1. curl_sSf (probe e j) \<noteq> 0"
    using w(4) by (simp add: less_diff_conv)
  ultimately show ?thesis by blast
qed

lemma healthy_iff:
  assumes "polls s = 0"
  shows "healthy e (wait_for_application e s) \<longleftrightarrow>
         (\<exists>k. curl_sSf (probe e k) = 0 \<and> 2 * int k < HEALTH_TIMEOUT e)"
proof
  assume "healthy e (wait_for_application e s)"
  from healthy_first_success [OF assms this]
  show "\<exists>k. curl_sSf (probe e k) = 0 \<and> 2 * int k < HEALTH_TIMEOUT e" by blast
next
  let ?w = "wait_for_application e s"
  note w = wait_result [OF assms(1), where e = e]
  assume "\<exists>k. curl_sSf (probe e k) = 0 \<and> 2 * int k < HEALTH_TIMEOUT e"
  then obtain k where k: "curl_sSf (probe e k) = 0" "2 * int k < HEALTH_TIMEOUT e" by blast
  have "\<not> Suc k < polls ?w" using w(4) [of k] k(1) by blast
  then have "polls ?w - 1 \<le> k" by simp
  with k(2) w(2) show "healthy e ?w" by (simp add: healthy_def)
qed

section \<open>The run up to the end of the wait\<close>

lemmas script_defs =
  server_clone_and_deploy_def health_wait_def started_def before_build_def staged_def
  after_wait_def basic_checks_def start_def clean_existing_deploy_def compose_down_in_def
  has_compose_def remove_by_name_def remove_named_def prepare_release_def
  clone_repository_def enter_release_def create_temporary_swap_def reuse_swapfile_def
  new_swapfile_def activate_swapfile_def stop_existing_services_def build_release_def
  start_services_def promote_def copy_release_def copy_part_def abort_release_def
  remove_swap_def
  wait_for_application_def healthy_def must_def tolerated_def andthen_def ran_def
  exit_with_def ok_def stop_services_def remove_release_def curl_sSf_def
  until_healthy.simps quiet_env_def live_host_def

lemma started_polls: "polls (started e s) = 0"
  by (simp add: started_keeps before_build_keeps ran_def start_def)

lemma health_wait_exit: "exit_code (health_wait e s) = exit_code (started e s)"
  by (simp add: health_wait_keeps ran_def)

lemma health_wait_running:
  assumes "exit_code (started e s) = None"
  shows "health_wait e s = wait_for_application e (started e s)"
  using assms by (simp add: health_wait_def andthen_def)

lemma health_wait_app_dir: "app_dir (health_wait e s) = app_dir s"
  by (simp add: health_wait_keeps started_keeps before_build_keeps ran_def start_def)

text \<open>Before the wait has ended the script has run none of the commands of lines 202 to 237.\<close>

lemma health_wait_log:
  assumes "c \<in> {MkdirAppDir, CpReleaseToApp, ChownAppDir, ComposeLogs, ComposeDown, Swapoff,
                 RmSwapfile}"
  shows "c \<notin> set (log (health_wait e s))"
proof -
  let ?g = "\<lambda>s. c \<in> set (log s)"
  have "?g (health_wait e s) = ?g (started e s)"
    using assms by (intro health_wait_keeps [where g = ?g]) (auto simp add: ran_def)
  also have "\<dots> = ?g (before_build e s)"
    using assms by (intro started_keeps [where g = ?g]) (auto simp add: ran_def)
  also have "\<dots> = ?g (start s)"
    using assms by (intro before_build_keeps [where g = ?g]) (auto simp add: ran_def)
  finally show ?thesis by (simp add: start_def)
qed

lemma abort_release_effect:
  "log (abort_release e s) = log s @ [ComposeLogs, ComposeDown, RmReleaseDir]"
  "exit_code (abort_release e s) = Some 1"
  "ok e ComposeDown \<Longrightarrow> services (abort_release e s) = NoServices"
  "ok e RmReleaseDir \<Longrightarrow> release_dir (abort_release e s) = None"
  "app_dir (abort_release e s) = app_dir s"
  "polls (abort_release e s) = polls s"
  "ELAPSED (abort_release e s) = ELAPSED s"
  by (simp_all add: abort_release_def tolerated_def ran_def exit_with_def stop_services_def
      remove_release_def)

lemma after_staged_keeps:
  assumes "\<And>t. g (ran SwaponShow t) = g t"
    "\<And>t. g (ran ChmodSwapfile t) = g t" "\<And>t. g (ran MkswapExisting t) = g t"
    "\<And>t. g (ran SwaponExisting t) = g t" "\<And>t. g (ran Fallocate t) = g t"
    "\<And>t. g (ran DdProgress t) = g t" "\<And>t. g (ran DdPlain t) = g t"
    "\<And>t. g (ran MkswapNew t) = g t" "\<And>t. g (ran SwaponNew t) = g t"
    "\<And>t. g (ran ComposeDownRmi t) = g t" "\<And>t. g (ran BuilderPrune t) = g t"
    "\<And>t. g (ran CdReleaseDir t) = g t"
    "\<And>x t. g (t\<lparr>services := x\<rparr>) = g t" "\<And>x t. g (t\<lparr>exit_code := x\<rparr>) = g t"
    "\<And>x t. g (t\<lparr>swap_active := x\<rparr>) = g t" "\<And>x t. g (t\<lparr>swap_exists := x\<rparr>) = g t"
    "\<And>x t. g (t\<lparr>CREATED_SWAP := x\<rparr>) = g t" "\<And>x t. g (t\<lparr>SWAPFILE_PATH := x\<rparr>) = g t"
  shows "g (before_build e s) = g (staged e s)"
  unfolding before_build_def using assms
  by (intro andthen_keeps)
    (simp add: andthen_keeps create_temporary_swap_keeps stop_existing_services_keeps)

lemma server_keeps:
  assumes "\<And>t. g (ran MkdirAppDir t) = g t" "\<And>t. g (ran CpReleaseToApp t) = g t"
    "\<And>t. g (ran ChownAppDir t) = g t" "\<And>t. g (ran RmReleaseDir t) = g t"
    "\<And>t. g (ran ComposeLogs t) = g t" "\<And>t. g (ran ComposeDown t) = g t"
    "\<And>t. g (ran Swapoff t) = g t" "\<And>t. g (ran RmSwapfile t) = g t"
    "\<And>x t. g (t\<lparr>exit_code := x\<rparr>) = g t" "\<And>x t. g (t\<lparr>release_dir := x\<rparr>) = g t"
    "\<And>x t. g (t\<lparr>app_dir := x\<rparr>) = g t" "\<And>x t. g (t\<lparr>services := x\<rparr>) = g t"
    "\<And>x t. g (t\<lparr>swap_active := x\<rparr>) = g t" "\<And>x t. g (t\<lparr>swap_exists := x\<rparr>) = g t"
  shows "g (server_clone_and_deploy e s) = g (health_wait e s)"
  unfolding server_clone_and_deploy_def using assms
  by (intro andthen_keeps) (simp add: after_wait_keeps)

text \<open>The script still running after a step: what the step must have done.\<close>

lemma staged_running:
  assumes "exit_code (staged e s) = None"
  shows "release_dir (staged e s) = Some (repo e)"
proof -
  let ?s1 = "basic_checks e (start s)"
  let ?s2 = "prepare_release e (clean_existing_deploy e ?s1)"
  let ?s3 = "clone_repository e ?s2"
  let ?f2 = "\<lambda>s. andthen (clone_repository e s) (enter_release e)"
  let ?f1 = "\<lambda>s. andthen (prepare_release e (clean_existing_deploy e s)) ?f2"
  have 0: "staged e s = andthen ?s1 ?f1" by (simp add: staged_def)
  from assms [unfolded 0] have "andthen ?s1 ?f1 = ?f1 ?s1" by (rule andthen_running)
  with 0 have 1: "staged e s = andthen ?s2 ?f2" by simp
  from assms [unfolded 1] have "andthen ?s2 ?f2 = ?f2 ?s2" by (rule andthen_running)
  with 1 have 2: "staged e s = andthen ?s3 (enter_release e)" by simp
  from assms [unfolded 2] have 3: "exit_code ?s3 = None"
    and 4: "andthen ?s3 (enter_release e) = enter_release e ?s3"
    by (rule andthen_running)+
  from 3 have "release_dir ?s3 = Some (repo e)"
    by (simp add: clone_repository_def exit_with_def split: if_splits)
  moreover have "release_dir (enter_release e ?s3) = release_dir ?s3"
    by (rule enter_release_keeps) (simp_all add: ran_def)
  ultimately show ?thesis using 2 4 by simp
qed

lemma before_build_running:
  assumes "exit_code (before_build e s) = None"
  shows "exit_code (staged e s) = None"
    and "exit_code (create_temporary_swap e (staged e s)) = None"
    and "before_build e s = stop_existing_services e (create_temporary_swap e (staged e s))"
proof -
  let ?f = "\<lambda>s. andthen (create_temporary_swap e s) (stop_existing_services e)"
  have 0: "before_build e s = andthen (staged e s) ?f" by (simp add: before_build_def)
  from assms [unfolded 0] show "exit_code (staged e s) = None" by (rule andthen_running)
  from assms [unfolded 0] have "andthen (staged e s) ?f = ?f (staged e s)"
    by (rule andthen_running)
  with 0 have 1: "before_build e s =
      andthen (create_temporary_swap e (staged e s)) (stop_existing_services e)" by simp
  from assms [unfolded 1] show "exit_code (create_temporary_swap e (staged e s)) = None"
    by (rule andthen_running)
  from assms [unfolded 1] have "andthen (create_temporary_swap e (staged e s))
      (stop_existing_services e) = stop_existing_services e (create_temporary_swap e (staged e s))"
    by (rule andthen_running)
  with 1 show "before_build e s =
      stop_existing_services e (create_temporary_swap e (staged e s))" by simp
qed

lemma before_build_release:
  assumes "exit_code (before_build e s) = None"
  shows "release_dir (before_build e s) = Some (repo e)"
proof -
  have "release_dir (before_build e s) = release_dir (staged e s)"
    by (rule after_staged_keeps) (simp_all add: ran_def)
  with before_build_running(1) [OF assms] show ?thesis by (simp add: staged_running)
qed

lemma before_build_down_first:
  assumes "exit_code (before_build e s) = None"
  shows "ComposeDownRmi \<in> set (log (before_build e s))"
    and "ok e ComposeDownRmi \<Longrightarrow> services (before_build e s) = NoServices"
  unfolding before_build_running(3) [OF assms]
  by (simp_all add: stop_existing_services_def must_def tolerated_def ran_def exit_with_def
      stop_services_def)

lemma started_running:
  assumes "exit_code (started e s) = None"
  shows "exit_code (before_build e s) = None"
    and "ok e ComposeBuildNoCachePull" and "ok e ComposeUp"
    and "started e s = (ran ComposeUp (ran ComposeBuildNoCachePull (before_build e s)))
                         \<lparr>services := NewServices\<rparr>"
proof -
  let ?b = "before_build e s"
  let ?f = "\<lambda>s. andthen (build_release e s) (start_services e)"
  have 0: "started e s = andthen ?b ?f" by (simp add: started_def)
  from assms [unfolded 0] show "exit_code ?b = None" by (rule andthen_running)
  from assms [unfolded 0] have "andthen ?b ?f = ?f ?b" by (rule andthen_running)
  with 0 have 2: "started e s = andthen (build_release e ?b) (start_services e)" by simp
  from assms [unfolded 2] have 3: "exit_code (build_release e ?b) = None"
    by (rule andthen_running)
  then show 4: "ok e ComposeBuildNoCachePull"
    by (simp add: build_release_def exit_with_def split: if_splits)
  from assms [unfolded 2] have "andthen (build_release e ?b) (start_services e) =
      start_services e (build_release e ?b)" by (rule andthen_running)
  with 2 have 5: "started e s = start_services e (build_release e ?b)" by simp
  with assms show 6: "ok e ComposeUp"
    by (simp add: start_services_def exit_with_def split: if_splits)
  from 4 5 6 show "started e s = (ran ComposeUp (ran ComposeBuildNoCachePull ?b))
                         \<lparr>services := NewServices\<rparr>"
    by (simp add: start_services_def build_release_def)
qed

lemma started_release:
  assumes "exit_code (started e s) = None"
  shows "release_dir (started e s) = Some (repo e)" and "services (started e s) = NewServices"
  using started_running [OF assms] by (simp_all add: before_build_release ran_def)

lemma health_wait_release:
  assumes "exit_code (started e s) = None"
  shows "release_dir (health_wait e s) = Some (repo e)"
    and "services (health_wait e s) = NewServices"
    and "exit_code (health_wait e s) = None"
proof -
  have "release_dir (health_wait e s) = release_dir (started e s)"
    by (rule health_wait_keeps) (simp_all add: ran_def)
  then show "release_dir (health_wait e s) = Some (repo e)"
    using started_release [OF assms] by simp
  have "services (health_wait e s) = services (started e s)"
    by (rule health_wait_keeps) (simp_all add: ran_def)
  then show "services (health_wait e s) = NewServices"
    using started_release [OF assms] by simp
  show "exit_code (health_wait e s) = None" using assms by (simp add: health_wait_exit)
qed

section \<open>The run after the wait\<close>

lemma curl_sSf_ok: "(curl_sSf r = 0) = (\<exists>c. r = HttpStatus c \<and> c < 400)"
  by (cases r) (simp_all add: curl_sSf_def)

lemma server_after_wait:
  assumes "exit_code (started e s) = None"
  shows "server_clone_and_deploy e s = after_wait e (health_wait e s)"
  using assms by (simp add: server_clone_and_deploy_def andthen_def health_wait_exit)

lemma server_aborts:
  assumes "exit_code (started e s) = None" "\<not> healthy e (health_wait e s)"
  shows "server_clone_and_deploy e s = abort_release e (health_wait e s)"
  using assms by (simp add: server_after_wait after_wait_def)

lemma build_failed:
  assumes "exit_code (before_build e s) = None" "\<not> ok e ComposeBuildNoCachePull"
  shows "server_clone_and_deploy e s = build_release e (before_build e s)"
    and "exit_code (build_release e (before_build e s)) = Some 1"
proof -
  let ?b = "before_build e s"
  show x: "exit_code (build_release e ?b) = Some 1"
    using assms(2) by (simp add: build_release_def exit_with_def)
  then have "andthen (build_release e ?b) (start_services e) = build_release e ?b"
    by (rule andthen_exited)
  with assms(1) have s: "started e s = build_release e ?b"
    by (simp add: started_def andthen_def)
  with x have w: "health_wait e s = build_release e ?b"
    by (simp add: health_wait_def andthen_exited)
  with x show "server_clone_and_deploy e s = build_release e ?b"
    by (simp add: server_clone_and_deploy_def andthen_exited)
qed

lemma before_build_app_dir: "app_dir (before_build e s) = app_dir s"
  by (simp add: before_build_keeps ran_def start_def)

lemma before_build_log:
  assumes "c \<in> {ComposeBuildNoCachePull, ComposeUp, Curl, Sleep2, MkdirAppDir, CpReleaseToApp,
                 ChownAppDir, ComposeLogs, ComposeDown, Swapoff, RmSwapfile}"
  shows "c \<notin> set (log (before_build e s))"
proof -
  let ?g = "\<lambda>s. c \<in> set (log s)"
  have "?g (before_build e s) = ?g (start s)"
    using assms by (intro before_build_keeps [where g = ?g]) (auto simp add: ran_def)
  then show ?thesis by (simp add: start_def)
qed

lemma build_failed_effect:
  assumes "exit_code (before_build e s) = None" "\<not> ok e ComposeBuildNoCachePull"
  shows "exit_code (server_clone_and_deploy e s) = Some 1"
    and "app_dir (server_clone_and_deploy e s) = app_dir s"
    and "log (server_clone_and_deploy e s) =
           log (before_build e s) @ [ComposeBuildNoCachePull, RmReleaseDir]"
    and "services (server_clone_and_deploy e s) = services (before_build e s)"
    and "ok e RmReleaseDir \<Longrightarrow> release_dir (server_clone_and_deploy e s) = None"
  unfolding build_failed(1) [OF assms]
  using assms(2)
  by (simp_all add: build_release_def exit_with_def tolerated_def ran_def remove_release_def
      before_build_app_dir)

lemma promote_effect:
  assumes "release_dir t = Some d" "exit_code t = None"
  shows "ok e MkdirAppDir \<Longrightarrow> ok e CpReleaseToApp \<Longrightarrow> app_dir (promote e t) = app_dir t ++ d"
    and "ok e MkdirAppDir \<Longrightarrow> ok e CpReleaseToApp \<Longrightarrow> exit_code (promote e t) = None"
    and "ok e MkdirAppDir \<Longrightarrow> ok e CpReleaseToApp \<Longrightarrow> ok e RmReleaseDir \<Longrightarrow>
         release_dir (promote e t) = None"
    and "\<not> (ok e MkdirAppDir \<and> ok e CpReleaseToApp) \<Longrightarrow>
         release_dir (promote e t) = Some d \<and>
         (\<exists>n. exit_code (promote e t) = Some n \<and> n \<noteq> 0)"
    and "\<not> ok e MkdirAppDir \<Longrightarrow> app_dir (promote e t) = app_dir t"
  using assms
  by (auto simp add: promote_def must_def tolerated_def andthen_def ran_def exit_with_def
      ok_def copy_release_def copy_part_def remove_release_def)


section \<open>The swap file\<close>

lemma create_temporary_swap_idle:
  assumes "2000 \<le> MEM_MB e \<or> (swap_active t \<and> ok e SwaponShow)"
  shows "swap_active (create_temporary_swap e t) = swap_active t"
    and "swap_exists (create_temporary_swap e t) = swap_exists t"
    and "\<not> CREATED_SWAP (create_temporary_swap e t)"
  using assms by (auto simp add: create_temporary_swap_def Let_def ran_def)

lemma activate_swapfile_created:
  assumes "CREATED_SWAP (activate_swapfile e mk on t)" "\<not> CREATED_SWAP t"
  shows "on \<in> set (log (activate_swapfile e mk on t)) \<and> ok e on"
  using assms by (auto simp add: activate_swapfile_def ran_def split: if_splits)

lemma reuse_swapfile_created:
  assumes "CREATED_SWAP (reuse_swapfile e t)" "\<not> CREATED_SWAP t"
  shows "SwaponExisting \<in> set (log (reuse_swapfile e t)) \<and> ok e SwaponExisting"
proof (cases "swap_exists t")
  case True
  let ?t = "tolerated e ChmodSwapfile id t"
  have "\<not> CREATED_SWAP ?t" using assms(2) by (simp add: tolerated_def ran_def)
  moreover have "reuse_swapfile e t = activate_swapfile e MkswapExisting SwaponExisting ?t"
    using True by (simp add: reuse_swapfile_def)
  ultimately show ?thesis using assms(1) by (simp add: activate_swapfile_created)
next
  case False
  with assms show ?thesis by (simp add: reuse_swapfile_def)
qed

lemma new_swapfile_created:
  assumes "CREATED_SWAP (new_swapfile e t)" "\<not> CREATED_SWAP t"
  shows "SwaponNew \<in> set (log (new_swapfile e t)) \<and> ok e SwaponNew"
proof -
  let ?s1 = "if ok e Fallocate then (ran Fallocate t)\<lparr>swap_exists := True\<rparr>
             else if ok e DdProgress then (ran DdProgress (ran Fallocate t))\<lparr>swap_exists := True\<rparr>
             else must e DdPlain (\<lambda>s. s\<lparr>swap_exists := True\<rparr>) (ran DdProgress (ran Fallocate t))"
  let ?f = "\<lambda>s. activate_swapfile e MkswapNew SwaponNew (tolerated e ChmodSwapfile id s)"
  have n: "new_swapfile e t = andthen ?s1 ?f" by (simp add: new_swapfile_def Let_def)
  have c1: "\<not> CREATED_SWAP ?s1" using assms(2) by (simp add: must_def ran_def exit_with_def)
  show ?thesis
  proof (cases "exit_code ?s1")
    case None
    then have eq: "new_swapfile e t = ?f ?s1" unfolding n by (simp add: andthen_def)
    have "\<not> CREATED_SWAP (tolerated e ChmodSwapfile id ?s1)"
      using c1 by (simp add: tolerated_def ran_def)
    with assms(1) show ?thesis unfolding eq by (rule activate_swapfile_created)
  next
    case (Some n')
    then have "new_swapfile e t = ?s1" unfolding n by (simp add: andthen_def)
    with assms(1) c1 show ?thesis by simp
  qed
qed

lemma create_temporary_swap_created:
  assumes "CREATED_SWAP (create_temporary_swap e t)"
  shows "(SwaponExisting \<in> set (log (create_temporary_swap e t)) \<and> ok e SwaponExisting) \<or>
         (SwaponNew \<in> set (log (create_temporary_swap e t)) \<and> ok e SwaponNew)"
proof -
  let ?s0 = "t\<lparr>CREATED_SWAP := False, SWAPFILE_PATH := []\<rparr>"
  let ?s1 = "reuse_swapfile e (ran SwaponShow ?s0)"
  have c0: "\<not> CREATED_SWAP (ran SwaponShow ?s0)" by (simp add: ran_def)
  from assms have low: "MEM_MB e < 2000" "\<not> (ok e SwaponShow \<and> swap_active ?s0)"
    by (auto simp add: create_temporary_swap_def Let_def ran_def split: if_splits)
  then have eq: "create_temporary_swap e t =
      (if \<not> CREATED_SWAP ?s1 then new_swapfile e ?s1 else ?s1)"
    by (auto simp add: create_temporary_swap_def Let_def)
  show ?thesis
  proof (cases "CREATED_SWAP ?s1")
    case True
    with eq have "create_temporary_swap e t = ?s1" by simp
    with reuse_swapfile_created [OF True c0] show ?thesis by simp
  next
    case False
    with eq have eq': "create_temporary_swap e t = new_swapfile e ?s1" by simp
    with assms have "CREATED_SWAP (new_swapfile e ?s1)" by simp
    from new_swapfile_created [OF this False] eq' show ?thesis by simp
  qed
qed

lemma remove_swap_idle:
  assumes "\<not> CREATED_SWAP t"
  shows "remove_swap e t = t"
  using assms by (simp add: remove_swap_def)

lemma after_wait_idle:
  assumes "\<not> CREATED_SWAP t"
    and "\<And>t. g (ran MkdirAppDir t) = g t" "\<And>t. g (ran CpReleaseToApp t) = g t"
    "\<And>t. g (ran ChownAppDir t) = g t" "\<And>t. g (ran RmReleaseDir t) = g t"
    "\<And>t. g (ran ComposeLogs t) = g t" "\<And>t. g (ran ComposeDown t) = g t"
    "\<And>x t. g (t\<lparr>exit_code := x\<rparr>) = g t" "\<And>x t. g (t\<lparr>release_dir := x\<rparr>) = g t"
    "\<And>x t. g (t\<lparr>app_dir := x\<rparr>) = g t" "\<And>x t. g (t\<lparr>services := x\<rparr>) = g t"
  shows "g (after_wait e t) = g t"
proof (cases "healthy e t")
  case True
  let ?p = "promote e t"
  have "CREATED_SWAP ?p = CREATED_SWAP t" by (rule promote_keeps) (simp_all add: ran_def)
  with assms(1) have "remove_swap e ?p = ?p" by (simp add: remove_swap_idle)
  then have "g (andthen ?p (\<lambda>s. exit_with 0 (remove_swap e s))) = g ?p"
    using assms(8) by (cases "exit_code ?p") (simp_all add: andthen_def exit_with_def)
  moreover have "g ?p = g t" using assms(2-11) by (intro promote_keeps) simp_all
  ultimately show ?thesis using True by (simp add: after_wait_def)
next
  case False
  have "g (abort_release e t) = g t" using assms(2-11) by (intro abort_release_keeps) simp_all
  with False show ?thesis by (simp add: after_wait_def)
qed

lemma server_idle:
  assumes "\<not> CREATED_SWAP (health_wait e s)"
    and "\<And>t. g (ran MkdirAppDir t) = g t" "\<And>t. g (ran CpReleaseToApp t) = g t"
    "\<And>t. g (ran ChownAppDir t) = g t" "\<And>t. g (ran RmReleaseDir t) = g t"
    "\<And>t. g (ran ComposeLogs t) = g t" "\<And>t. g (ran ComposeDown t) = g t"
    "\<And>x t. g (t\<lparr>exit_code := x\<rparr>) = g t" "\<And>x t. g (t\<lparr>release_dir := x\<rparr>) = g t"
    "\<And>x t. g (t\<lparr>app_dir := x\<rparr>) = g t" "\<And>x t. g (t\<lparr>services := x\<rparr>) = g t"
  shows "g (server_clone_and_deploy e s) = g (health_wait e s)"
proof (cases "exit_code (health_wait e s)")
  case None
  then have "server_clone_and_deploy e s = after_wait e (health_wait e s)"
    by (simp add: server_clone_and_deploy_def andthen_def)
  with after_wait_idle [of "health_wait e s" g e, OF assms] show ?thesis by simp
next
  case (Some n)
  then show ?thesis by (simp add: server_clone_and_deploy_def andthen_def)
qed

text \<open>The fields of the swap file when the wait has ended, read off the swap step.\<close>

lemma health_wait_swap:
  fixes g :: "host \<Rightarrow> 'a"
  assumes "\<And>t. g (ran ComposeDownRmi t) = g t" "\<And>t. g (ran BuilderPrune t) = g t"
    "\<And>t. g (ran CdReleaseDir t) = g t" "\<And>t. g (ran ComposeBuildNoCachePull t) = g t"
    "\<And>t. g (ran ComposeUp t) = g t" "\<And>t. g (ran RmReleaseDir t) = g t"
    "\<And>t. g (ran Curl t) = g t" "\<And>t. g (ran Sleep2 t) = g t"
    "\<And>x t. g (t\<lparr>services := x\<rparr>) = g t" "\<And>x t. g (t\<lparr>release_dir := x\<rparr>) = g t"
    "\<And>x t. g (t\<lparr>exit_code := x\<rparr>) = g t" "\<And>x t. g (t\<lparr>polls := x\<rparr>) = g t"
    "\<And>x t. g (t\<lparr>ELAPSED := x\<rparr>) = g t"
  shows "g (health_wait e s) =
           (case exit_code (staged e s) of
              None \<Rightarrow> g (create_temporary_swap e (staged e s))
            | Some n \<Rightarrow> g (staged e s))"
proof -
  have "g (health_wait e s) = g (started e s)"
    using assms by (intro health_wait_keeps) simp_all
  also have "\<dots> = g (before_build e s)"
    using assms by (intro started_keeps) simp_all
  also have "\<dots> = (case exit_code (staged e s) of
              None \<Rightarrow> g (create_temporary_swap e (staged e s))
            | Some n \<Rightarrow> g (staged e s))"
  proof (cases "exit_code (staged e s)")
    case None
    then have "before_build e s =
        andthen (create_temporary_swap e (staged e s)) (stop_existing_services e)"
      by (simp add: before_build_def andthen_def)
    moreover have "g (andthen (create_temporary_swap e (staged e s)) (stop_existing_services e))
        = g (create_temporary_swap e (staged e s))"
      using assms by (intro andthen_keeps stop_existing_services_keeps) simp_all
    ultimately show ?thesis using None by simp
  next
    case (Some n)
    then show ?thesis by (simp add: before_build_def andthen_def)
  qed
  finally show ?thesis .
qed

lemma staged_swap:
  "swap_active (staged e s) = swap_active s" "swap_exists (staged e s) = swap_exists s"
  "\<not> CREATED_SWAP (staged e s)"
  by (simp_all add: staged_keeps ran_def start_def)

lemma health_wait_idle:
  assumes "2000 \<le> MEM_MB e \<or> (swap_active s \<and> ok e SwaponShow)"
  shows "swap_active (health_wait e s) = swap_active s"
    and "swap_exists (health_wait e s) = swap_exists s"
    and "\<not> CREATED_SWAP (health_wait e s)"
proof -
  from assms have idle: "2000 \<le> MEM_MB e \<or> (swap_active (staged e s) \<and> ok e SwaponShow)"
    by (simp add: staged_swap)
  note c = create_temporary_swap_idle [OF idle] staged_swap [of e s]
  have "swap_active (health_wait e s) =
      (case exit_code (staged e s) of None \<Rightarrow> swap_active (create_temporary_swap e (staged e s))
       | Some n \<Rightarrow> swap_active (staged e s))"
    by (rule health_wait_swap) (simp_all add: ran_def)
  with c show "swap_active (health_wait e s) = swap_active s" by (simp split: option.splits)
  have "swap_exists (health_wait e s) =
      (case exit_code (staged e s) of None \<Rightarrow> swap_exists (create_temporary_swap e (staged e s))
       | Some n \<Rightarrow> swap_exists (staged e s))"
    by (rule health_wait_swap) (simp_all add: ran_def)
  with c show "swap_exists (health_wait e s) = swap_exists s" by (simp split: option.splits)
  have "CREATED_SWAP (health_wait e s) =
      (case exit_code (staged e s) of None \<Rightarrow> CREATED_SWAP (create_temporary_swap e (staged e s))
       | Some n \<Rightarrow> CREATED_SWAP (staged e s))"
    by (rule health_wait_swap) (simp_all add: ran_def)
  with c show "\<not> CREATED_SWAP (health_wait e s)" by (simp split: option.splits)
qed


section \<open>The development script: health check and build attempts\<close>

lemmas dev_defs =
  dev_deploy_def dev_started_def dev_built_def dev_start_def dev_checks_def
  stop_old_container_def dev_build_def restart_previous_def dev_start_app_def
  dev_health_check_def dev_finish_def set_running_def dev_andthen_def dev_ran_def
  dev_exit_with_def dev_ok_def

lemma dev_health_loop_keeps:
  assumes "\<And>t. g (dev_ran InvokeWebRequest t) = g t" "\<And>t. g (dev_ran StartSleep t) = g t"
    "\<And>x t. g (t\<lparr>requests := x\<rparr>) = g t" "\<And>x t. g (t\<lparr>healthOk := x\<rparr>) = g t"
  shows "g (dev_health_loop n d t) = g t"
  using assms by (induction n arbitrary: t) (simp_all add: Let_def)

lemma dev_health_check_keeps:
  assumes "\<And>t. g (dev_ran InvokeWebRequest t) = g t" "\<And>t. g (dev_ran StartSleep t) = g t"
    "\<And>x t. g (t\<lparr>requests := x\<rparr>) = g t" "\<And>x t. g (t\<lparr>healthOk := x\<rparr>) = g t"
  shows "g (dev_health_check d t) = g t"
proof -
  have "g (dev_health_check d t) = g (t\<lparr>healthOk := False, requests := 0\<rparr>)"
    unfolding dev_health_check_def using assms by (rule dev_health_loop_keeps)
  with assms(3,4) show ?thesis by simp
qed

lemma dev_health_loop_ok:
  "healthOk (dev_health_loop n d t) =
     (healthOk t \<or> (\<exists>i<n. request d (requests t + i) = Response 200))"
proof (induction n arbitrary: t)
  case 0
  show ?case by simp
next
  case (Suc n)
  show ?case
  proof (cases "request d (requests t) = Response 200")
    case True
    then have "\<exists>i<Suc n. request d (requests t + i) = Response 200"
      by (intro exI [of _ 0]) simp
    with True show ?thesis by (simp add: Let_def dev_ran_def)
  next
    case False
    have "(\<exists>i<Suc n. request d (requests t + i) = Response 200) =
          (\<exists>i<n. request d (Suc (requests t) + i) = Response 200)"
    proof
      assume "\<exists>i<Suc n. request d (requests t + i) = Response 200"
      then obtain i where i: "i < Suc n" "request d (requests t + i) = Response 200" by blast
      with False have "i \<noteq> 0" by (metis add_0_right)
      then obtain j where "i = Suc j" by (cases i) simp_all
      with i show "\<exists>i<n. request d (Suc (requests t) + i) = Response 200"
        by (intro exI [of _ j]) simp
    next
      assume "\<exists>i<n. request d (Suc (requests t) + i) = Response 200"
      then obtain j where "j < n" "request d (Suc (requests t) + j) = Response 200" by blast
      then show "\<exists>i<Suc n. request d (requests t + i) = Response 200"
        by (intro exI [of _ "Suc j"]) simp
    qed
    with False show ?thesis by (simp add: Let_def Suc dev_ran_def)
  qed
qed

lemma dev_health_check_ok:
  "healthOk (dev_health_check d t) = (\<exists>i<30. request d i = Response 200)"
  by (simp add: dev_health_check_def dev_health_loop_ok)

lemma restart_previous_keeps:
  assumes "\<And>t. g (dev_ran DockerStart t) = g t" "\<And>x t. g (t\<lparr>old_container := x\<rparr>) = g t"
  shows "g (restart_previous d t) = g t"
  using assms by (simp add: restart_previous_def set_running_def split: option.splits)

lemma dev_after_build_keeps:
  assumes "\<And>t. g (dev_ran DockerStart t) = g t" "\<And>t. g (dev_ran ComposeUpApp t) = g t"
    "\<And>t. g (dev_ran InvokeWebRequest t) = g t" "\<And>t. g (dev_ran StartSleep t) = g t"
    "\<And>t. g (dev_ran DevComposeLogs t) = g t"
    "\<And>x t. g (t\<lparr>old_container := x\<rparr>) = g t" "\<And>x t. g (t\<lparr>new_app := x\<rparr>) = g t"
    "\<And>x t. g (t\<lparr>requests := x\<rparr>) = g t" "\<And>x t. g (t\<lparr>healthOk := x\<rparr>) = g t"
    "\<And>x t. g (t\<lparr>dev_exit := x\<rparr>) = g t"
  shows "g (dev_deploy d t) = g (dev_built d t)"
proof -
  have start: "g (dev_start_app d u) = g u" for u
    using assms by (simp add: dev_start_app_def dev_exit_with_def restart_previous_keeps)
  have finish: "g (dev_finish d (dev_health_check d u)) = g u" for u
  proof -
    have "g (dev_finish d (dev_health_check d u)) = g (dev_health_check d u)"
      using assms by (simp add: dev_finish_def dev_exit_with_def restart_previous_keeps)
    also have "\<dots> = g u" using assms by (intro dev_health_check_keeps) simp_all
    finally show ?thesis .
  qed
  have "g (dev_deploy d t) = g (dev_started d t)"
    using finish by (simp add: dev_deploy_def dev_andthen_def split: option.splits)
  also have "\<dots> = g (dev_built d t)"
    using start by (simp add: dev_started_def dev_andthen_def split: option.splits)
  finally show ?thesis .
qed

lemma dev_two_attempts:
  assumes "dev_ok d DockerInfo" "dev_ok d NpmRunBuild"
  shows "filter (\<lambda>c. c \<in> {BuildCached, DevBuilderPrune, BuildNoCache}) (dev_log (dev_deploy d t)) =
           (if dev_ok d BuildCached then [BuildCached]
            else [BuildCached, DevBuilderPrune, BuildNoCache])"
    and "\<not> dev_ok d BuildCached \<Longrightarrow> \<not> dev_ok d BuildNoCache \<Longrightarrow>
         dev_exit (dev_deploy d t) = Some 1"
proof -
  let ?g = "\<lambda>u. filter (\<lambda>c. c \<in> {BuildCached, DevBuilderPrune, BuildNoCache}) (dev_log u)"
  have "?g (dev_deploy d t) = ?g (dev_built d t)"
    by (rule dev_after_build_keeps [where g = ?g]) (simp_all add: dev_ran_def)
  also have "\<dots> = (if dev_ok d BuildCached then [BuildCached]
            else [BuildCached, DevBuilderPrune, BuildNoCache])"
    using assms
    by (simp add: dev_built_def dev_checks_def dev_start_def stop_old_container_def
        dev_build_def dev_andthen_def dev_ran_def dev_exit_with_def set_running_def Let_def
        split: option.splits)
  finally show "?g (dev_deploy d t) = (if dev_ok d BuildCached then [BuildCached]
            else [BuildCached, DevBuilderPrune, BuildNoCache])" .
  show "dev_exit (dev_deploy d t) = Some 1"
    if "\<not> dev_ok d BuildCached" "\<not> dev_ok d BuildNoCache"
    using assms that
    by (simp add: dev_deploy_def dev_started_def dev_built_def dev_checks_def dev_start_def
        stop_old_container_def dev_build_def dev_start_app_def restart_previous_def
        dev_andthen_def dev_ran_def dev_exit_with_def set_running_def Let_def
        split: option.splits)
qed


lemma dev_build_failure:
  assumes "dev_ok d DockerInfo" "dev_ok d NpmRunBuild"
    "\<not> dev_ok d BuildCached" "\<not> dev_ok d BuildNoCache"
  shows "dev_exit (dev_deploy d t) = Some 1"
    and "new_app (dev_deploy d t) = new_app t"
    and "dev_log (dev_deploy d t) =
           [DockerInfo, NpmRunBuild] @
           (case old_container t of None \<Rightarrow> [] | Some x \<Rightarrow> [DockerStop]) @
           [BuildCached, DevBuilderPrune, BuildNoCache] @
           (case old_container t of None \<Rightarrow> [] | Some x \<Rightarrow> [DockerStart])"
    and "old_container t = Some (i, r) \<Longrightarrow> dev_ok d DockerStart \<Longrightarrow>
         old_container (dev_deploy d t) = Some (i, True)"
  using assms by (simp_all add: dev_defs Let_def split: option.splits)

lemma dev_started_container:
  assumes "dev_exit (dev_started d t) = None"
  shows "oldContainerId (dev_started d t) = map_option fst (old_container t)"
    and "map_option fst (old_container (dev_started d t)) = map_option fst (old_container t)"
  using assms
  by (auto simp add: dev_started_def dev_built_def dev_start_def dev_checks_def
      stop_old_container_def dev_build_def restart_previous_def dev_start_app_def
      set_running_def dev_andthen_def dev_ran_def dev_exit_with_def Let_def
      split: option.splits if_splits)

lemma dev_health_failure:
  assumes "dev_exit (dev_started d t) = None" "\<forall>i<30. request d i \<noteq> Response 200"
  shows "dev_exit (dev_deploy d t) = Some 1"
    and "dev_log (dev_deploy d t) =
           dev_log (dev_health_check d (dev_started d t)) @
           DevComposeLogs # (case old_container t of None \<Rightarrow> [] | Some x \<Rightarrow> [DockerStart])"
    and "old_container t = Some (i, r) \<Longrightarrow> dev_ok d DockerStart \<Longrightarrow>
         old_container (dev_deploy d t) = Some (i, True)"
proof -
  let ?h = "dev_health_check d (dev_started d t)"
  from assms(2) have bad: "\<not> healthOk ?h" by (simp add: dev_health_check_ok)
  have id: "oldContainerId ?h = oldContainerId (dev_started d t)"
    by (rule dev_health_check_keeps) (simp_all add: dev_ran_def)
  have oc: "old_container ?h = old_container (dev_started d t)"
    by (rule dev_health_check_keeps) (simp_all add: dev_ran_def)
  note c = dev_started_container [OF assms(1)]
  have r: "dev_deploy d t = dev_exit_with 1 (restart_previous d (dev_ran DevComposeLogs ?h))"
    using assms(1) bad by (simp add: dev_deploy_def dev_andthen_def dev_finish_def)
  show "dev_exit (dev_deploy d t) = Some 1" unfolding r by (simp add: dev_exit_with_def)
  show "dev_log (dev_deploy d t) = dev_log ?h @
           DevComposeLogs # (case old_container t of None \<Rightarrow> [] | Some x \<Rightarrow> [DockerStart])"
    unfolding r using id c(1)
    by (cases "old_container t")
      (simp_all add: dev_exit_with_def restart_previous_def dev_ran_def set_running_def)
  show "old_container (dev_deploy d t) = Some (i, True)"
    if "old_container t = Some (i, r)" "dev_ok d DockerStart"
  proof -
    from that(1) c have "oldContainerId (dev_started d t) = Some i"
      and "map_option fst (old_container (dev_started d t)) = Some i" by simp_all
    then obtain r' where "old_container (dev_started d t) = Some (i, r')" by auto
    with \<open>oldContainerId (dev_started d t) = Some i\<close> that(2) id oc show ?thesis
      unfolding r
      by (simp add: dev_exit_with_def restart_previous_def dev_ran_def set_running_def)
  qed
qed

section \<open>The build attempts of the server script\<close>

lemma server_single_attempt:
  assumes "exit_code (before_build e s) = None"
  shows "filter (\<lambda>c. c \<in> {BuilderPrune, ComposeBuildNoCachePull})
           (log (server_clone_and_deploy e s)) = [BuilderPrune, ComposeBuildNoCachePull]"
proof -
  let ?g = "\<lambda>t. filter (\<lambda>c. c \<in> {BuilderPrune, ComposeBuildNoCachePull}) (log t)"
  let ?b = "before_build e s"
  let ?c = "create_temporary_swap e (staged e s)"
  have "?g (server_clone_and_deploy e s) = ?g (health_wait e s)"
    by (rule server_keeps [where g = ?g]) (simp_all add: ran_def)
  also have "\<dots> = ?g (started e s)"
    by (rule health_wait_keeps [where g = ?g]) (simp_all add: ran_def)
  also have "\<dots> = ?g (build_release e ?b)"
  proof -
    have "started e s = andthen (build_release e ?b) (start_services e)"
      using assms by (simp add: started_def andthen_def)
    moreover have "?g (andthen (build_release e ?b) (start_services e)) = ?g (build_release e ?b)"
      by (intro andthen_keeps [where g = ?g] start_services_keeps [where g = ?g])
        (simp_all add: ran_def)
    ultimately show ?thesis by simp
  qed
  also have "\<dots> = ?g ?b @ [ComposeBuildNoCachePull]"
    by (simp add: build_release_def exit_with_def tolerated_def ran_def remove_release_def)
  also have "?g ?b = ?g ?c @ [BuilderPrune]"
    unfolding before_build_running(3) [OF assms]
    by (simp add: stop_existing_services_def must_def tolerated_def ran_def exit_with_def
        stop_services_def)
  also have "?g ?c = ?g (staged e s)"
    by (rule create_temporary_swap_keeps [where g = ?g]) (simp_all add: ran_def)
  also have "\<dots> = ?g (start s)"
    by (rule staged_keeps [where g = ?g]) (simp_all add: ran_def)
  finally show ?thesis by (simp add: start_def)
qed

lemma dev_health_loop_requests: "requests (dev_health_loop n d t) \<le> requests t + n"
proof (induction n arbitrary: t)
  case 0
  show ?case by simp
next
  case (Suc n)
  from Suc [of "dev_ran StartSleep ((dev_ran InvokeWebRequest t)\<lparr>requests := Suc (requests t)\<rparr>)"]
  show ?case by (simp add: Let_def dev_ran_def)
qed

section \<open>The swap file of the VPS script\<close>

text \<open>
  Whatever the status of the remote build, the VPS script removes the swap file it made,
  once, after the build.
\<close>

lemma vps_swap_released:
  "createdSwap (vps_deploy e s) \<Longrightarrow>
     vps_log (vps_deploy e s) = [RemoteSwapOn, RemoteBuild, RemoteSwapOff]"
  "\<not> createdSwap (vps_deploy e s) \<Longrightarrow> RemoteSwapOff \<notin> set (vps_log (vps_deploy e s))"
  "buildExit (vps_deploy e s) = vps_status e RemoteBuild"
  by (simp_all add: vps_deploy_def vps_build_def vps_prepare_swap_def vps_ran_def Let_def
      split: if_splits)

section \<open>The properties of the specification\<close>

text \<open>
  C1. Promotion (the commands of lines 208 and 211, or any change to the files of APP_DIR)
  happens only in a run whose health wait returned true, and the wait returns true only
  when a poll made before the timeout succeeded after all earlier polls failed.
\<close>

theorem promotion_requires_healthy_probe:
  assumes "MkdirAppDir \<in> set (log (server_clone_and_deploy e s)) \<or>
           CpReleaseToApp \<in> set (log (server_clone_and_deploy e s)) \<or>
           app_dir (server_clone_and_deploy e s) \<noteq> app_dir s"
  shows "healthy e (health_wait e s) \<and>
         (\<exists>k. curl_sSf (probe e k) = 0 \<and> 2 * int k < HEALTH_TIMEOUT e \<and>
              (\<forall>j<k. curl_sSf (probe e j) \<noteq> 0))"
proof -
  let ?w = "health_wait e s"
  let ?r = "server_clone_and_deploy e s"
  have quiet: "MkdirAppDir \<notin> set (log ?w)" "CpReleaseToApp \<notin> set (log ?w)"
    "app_dir ?w = app_dir s"
    by (simp_all add: health_wait_log health_wait_app_dir)
  have running: "exit_code ?w = None"
  proof (rule ccontr)
    assume "exit_code ?w \<noteq> None"
    then have "?r = ?w" by (auto simp add: server_clone_and_deploy_def andthen_def)
    with assms quiet show False by simp
  qed
  then have r: "?r = after_wait e ?w" by (simp add: server_clone_and_deploy_def andthen_def)
  have h: "healthy e ?w"
  proof (rule ccontr)
    assume "\<not> healthy e ?w"
    then have "?r = abort_release e ?w" using r by (simp add: after_wait_def)
    with assms quiet show False by (simp add: abort_release_effect)
  qed
  from running have "exit_code (started e s) = None" by (simp add: health_wait_exit)
  then have "?w = wait_for_application e (started e s)" by (rule health_wait_running)
  with h healthy_first_success [OF started_polls, of e e s] show ?thesis by simp
qed

theorem promotion_requires_healthy_probe_witness:
  "MkdirAppDir \<in> set (log (server_clone_and_deploy quiet_env live_host)) \<and>
   healthy quiet_env (health_wait quiet_env live_host) \<and>
   (\<exists>k. curl_sSf (probe quiet_env k) = 0 \<and> 2 * int k < HEALTH_TIMEOUT quiet_env \<and>
        (\<forall>j<k. curl_sSf (probe quiet_env j) \<noteq> 0))"
proof -
  have h: "MkdirAppDir \<in> set (log (server_clone_and_deploy quiet_env live_host))"
    by (simp add: script_defs)
  from promotion_requires_healthy_probe [OF disjI1 [OF h]] h show ?thesis by blast
qed

text \<open>
  C2. For every run that reaches promotion: when \<^verbatim>\<open>mkdir -p\<close> and \<^verbatim>\<open>cp -a\<close>
  succeed, the files of APP_DIR are afterwards those of the release laid over the files
  that were there (same names overwritten, other files kept), the run exits 0, and the
  staged release directory is removed; when one of the two fails, the run ends there with
  a non-zero status and the staged release directory still in place (and with APP_DIR as
  it was, when it was \<^verbatim>\<open>mkdir -p\<close> that failed).
\<close>

theorem promotion_copies_over_app_dir:
  assumes "exit_code (started e s) = None" and "healthy e (health_wait e s)"
  shows "(ok e MkdirAppDir \<and> ok e CpReleaseToApp \<longrightarrow>
            app_dir (server_clone_and_deploy e s) = app_dir s ++ repo e \<and>
            exit_code (server_clone_and_deploy e s) = Some 0 \<and>
            (ok e RmReleaseDir \<longrightarrow> release_dir (server_clone_and_deploy e s) = None)) \<and>
         (\<not> (ok e MkdirAppDir \<and> ok e CpReleaseToApp) \<longrightarrow>
            release_dir (server_clone_and_deploy e s) = Some (repo e) \<and>
            (\<exists>n. exit_code (server_clone_and_deploy e s) = Some n \<and> n \<noteq> 0) \<and>
            (\<not> ok e MkdirAppDir \<longrightarrow> app_dir (server_clone_and_deploy e s) = app_dir s))"
proof -
  let ?w = "health_wait e s"
  let ?p = "promote e ?w"
  note w = health_wait_release [OF assms(1)] health_wait_app_dir [of e s]
  note p = promote_effect [OF w(1) w(3), of e, unfolded w(4)]
  have r: "server_clone_and_deploy e s = andthen ?p (\<lambda>s. exit_with 0 (remove_swap e s))"
    using assms by (simp add: server_after_wait after_wait_def)
  show ?thesis
  proof (cases "ok e MkdirAppDir \<and> ok e CpReleaseToApp")
    case True
    then have run: "exit_code ?p = None" using p(2) by simp
    then have r': "server_clone_and_deploy e s = exit_with 0 (remove_swap e ?p)"
      using r by (simp add: andthen_def)
    have "app_dir (remove_swap e ?p) = app_dir ?p"
      by (rule remove_swap_keeps) (simp_all add: ran_def)
    moreover have "release_dir (remove_swap e ?p) = release_dir ?p"
      by (rule remove_swap_keeps) (simp_all add: ran_def)
    ultimately show ?thesis
      using True p(1) p(3) r' by (simp add: exit_with_def)
  next
    case False
    from p(4) [OF False] obtain n where n: "exit_code ?p = Some n" "n \<noteq> 0" by blast
    from n(1) have r': "server_clone_and_deploy e s = ?p" using r by (simp add: andthen_exited)
    show ?thesis unfolding r' using False p(4) [OF False] p(5) by blast
  qed
qed

theorem promotion_copies_over_app_dir_witness:
  "app_dir (server_clone_and_deploy quiet_env live_host) = app_dir live_host ++ repo quiet_env \<and>
   exit_code (server_clone_and_deploy quiet_env live_host) = Some 0 \<and>
   release_dir (server_clone_and_deploy quiet_env live_host) = None \<and>
   release_dir (server_clone_and_deploy (copy_fails quiet_env) live_host) =
     Some (repo (copy_fails quiet_env)) \<and>
   (\<exists>n. exit_code (server_clone_and_deploy (copy_fails quiet_env) live_host) = Some n \<and> n \<noteq> 0)"
proof -
  have 1: "exit_code (started quiet_env live_host) = None" by (simp add: script_defs)
  have 2: "healthy quiet_env (health_wait quiet_env live_host)" by (simp add: script_defs)
  have 3: "ok quiet_env MkdirAppDir" "ok quiet_env CpReleaseToApp" "ok quiet_env RmReleaseDir"
    by (simp_all add: script_defs)
  have 4: "exit_code (started (copy_fails quiet_env) live_host) = None"
    by (simp add: copy_fails_def script_defs)
  have 5: "healthy (copy_fails quiet_env) (health_wait (copy_fails quiet_env) live_host)"
    by (simp add: copy_fails_def script_defs)
  have 6: "\<not> ok (copy_fails quiet_env) CpReleaseToApp"
    by (simp add: copy_fails_def script_defs)
  from promotion_copies_over_app_dir [OF 1 2] 3 promotion_copies_over_app_dir [OF 4 5] 6
  show ?thesis by simp
qed

text \<open>
  C2 as stated fails: after a promotion APP_DIR holds neither the previous release nor the
  new one but a mixture (the new app.js beside the notes.txt of the previous release),
  and the directory that is removed is the one of the new release.
\<close>

theorem promotion_not_a_switch_counterexample:
  "exit_code (server_clone_and_deploy quiet_env live_host) = Some 0 \<and>
   app_dir (server_clone_and_deploy quiet_env live_host) \<noteq> app_dir live_host \<and>
   app_dir (server_clone_and_deploy quiet_env live_host) \<noteq> repo quiet_env \<and>
   app_dir (server_clone_and_deploy quiet_env live_host) ''app.js'' = Some ''v2'' \<and>
   app_dir (server_clone_and_deploy quiet_env live_host) ''notes.txt'' = Some ''kept'' \<and>
   release_dir (server_clone_and_deploy quiet_env live_host) = None"
proof -
  let ?r = "server_clone_and_deploy quiet_env live_host"
  have a: "app_dir ?r ''app.js'' = Some ''v2''" and n: "app_dir ?r ''notes.txt'' = Some ''kept''"
    and x: "exit_code ?r = Some 0" and d: "release_dir ?r = None"
    by (simp_all add: script_defs)
  have "app_dir ?r \<noteq> app_dir live_host"
  proof
    assume "app_dir ?r = app_dir live_host"
    then have "app_dir ?r ''app.js'' = app_dir live_host ''app.js''" by simp
    with a show False by (simp add: live_host_def)
  qed
  moreover have "app_dir ?r \<noteq> repo quiet_env"
  proof
    assume "app_dir ?r = repo quiet_env"
    then have "app_dir ?r ''notes.txt'' = repo quiet_env ''notes.txt''" by simp
    with n show False by (simp add: quiet_env_def)
  qed
  ultimately show ?thesis using a n x d by simp
qed

text \<open>
  C3. In every run of the server script in which the build fails, the script removes the
  staged release directory and exits 1; nothing is promoted and the files of APP_DIR are
  as before. The services are not left alone: the script has run its
  \<^verbatim>\<open>docker compose down\<close> of line 174 before the build (when it succeeded, nothing is
  up at exit) and never runs \<^verbatim>\<open>docker compose up\<close>. In the development script the
  container of the previous run is stopped before the two attempts and started again
  after both failed.
\<close>

theorem failed_build_keeps_files_not_services:
  "(exit_code (before_build e s) = None \<and> \<not> ok e ComposeBuildNoCachePull \<longrightarrow>
      exit_code (server_clone_and_deploy e s) = Some 1 \<and>
      app_dir (server_clone_and_deploy e s) = app_dir s \<and>
      MkdirAppDir \<notin> set (log (server_clone_and_deploy e s)) \<and>
      CpReleaseToApp \<notin> set (log (server_clone_and_deploy e s)) \<and>
      ComposeDownRmi \<in> set (log (server_clone_and_deploy e s)) \<and>
      ComposeUp \<notin> set (log (server_clone_and_deploy e s)) \<and>
      (ok e ComposeDownRmi \<longrightarrow> services (server_clone_and_deploy e s) = NoServices) \<and>
      (ok e RmReleaseDir \<longrightarrow> release_dir (server_clone_and_deploy e s) = None)) \<and>
   (dev_ok d DockerInfo \<and> dev_ok d NpmRunBuild \<and>
    \<not> dev_ok d BuildCached \<and> \<not> dev_ok d BuildNoCache \<longrightarrow>
      dev_exit (dev_deploy d t) = Some 1 \<and>
      new_app (dev_deploy d t) = new_app t \<and>
      dev_log (dev_deploy d t) =
        [DockerInfo, NpmRunBuild] @
        (case old_container t of None \<Rightarrow> [] | Some x \<Rightarrow> [DockerStop]) @
        [BuildCached, DevBuilderPrune, BuildNoCache] @
        (case old_container t of None \<Rightarrow> [] | Some x \<Rightarrow> [DockerStart]) \<and>
      (old_container t = Some (i, r) \<and> dev_ok d DockerStart \<longrightarrow>
         old_container (dev_deploy d t) = Some (i, True)))"
proof (intro conjI impI)
  let ?r = "server_clone_and_deploy e s"
  {
    assume a: "exit_code (before_build e s) = None \<and> \<not> ok e ComposeBuildNoCachePull"
    then have run: "exit_code (before_build e s) = None"
      and failed: "\<not> ok e ComposeBuildNoCachePull" by simp_all
    note f = build_failed_effect [OF run failed]
    note d = before_build_down_first [OF run]
    show "exit_code ?r = Some 1" by (rule f(1))
    show "app_dir ?r = app_dir s" by (rule f(2))
    show "MkdirAppDir \<notin> set (log ?r)" by (simp add: f(3) before_build_log)
    show "CpReleaseToApp \<notin> set (log ?r)" by (simp add: f(3) before_build_log)
    show "ComposeDownRmi \<in> set (log ?r)" using d(1) by (simp add: f(3))
    show "ComposeUp \<notin> set (log ?r)" by (simp add: f(3) before_build_log)
    show "services ?r = NoServices" if "ok e ComposeDownRmi" using d(2) [OF that] by (simp add: f(4))
    show "release_dir ?r = None" if "ok e RmReleaseDir" using that by (rule f(5))
  }
  assume b: "dev_ok d DockerInfo \<and> dev_ok d NpmRunBuild \<and>
    \<not> dev_ok d BuildCached \<and> \<not> dev_ok d BuildNoCache"
  then have 1: "dev_ok d DockerInfo" and 2: "dev_ok d NpmRunBuild"
    and 3: "\<not> dev_ok d BuildCached" and 4: "\<not> dev_ok d BuildNoCache" by simp_all
  note df = dev_build_failure [OF 1 2 3 4]
  show "dev_exit (dev_deploy d t) = Some 1" by (rule df(1))
  show "new_app (dev_deploy d t) = new_app t" by (rule df(2))
  show "dev_log (dev_deploy d t) =
        [DockerInfo, NpmRunBuild] @
        (case old_container t of None \<Rightarrow> [] | Some x \<Rightarrow> [DockerStop]) @
        [BuildCached, DevBuilderPrune, BuildNoCache] @
        (case old_container t of None \<Rightarrow> [] | Some x \<Rightarrow> [DockerStart])" by (rule df(3))
  show "old_container (dev_deploy d t) = Some (i, True)"
    if "old_container t = Some (i, r) \<and> dev_ok d DockerStart"
    using that df(4) by blast
qed

theorem failed_build_keeps_files_not_services_witness:
  "exit_code (server_clone_and_deploy (build_fails quiet_env) live_host) = Some 1 \<and>
   app_dir (server_clone_and_deploy (build_fails quiet_env) live_host) = app_dir live_host \<and>
   services (server_clone_and_deploy (build_fails quiet_env) live_host) = NoServices \<and>
   release_dir (server_clone_and_deploy (build_fails quiet_env) live_host) = None \<and>
   dev_exit (dev_deploy (dev_builds_fail dev_quiet) dev_live) = Some 1 \<and>
   dev_log (dev_deploy (dev_builds_fail dev_quiet) dev_live) =
     [DockerInfo, NpmRunBuild, DockerStop, BuildCached, DevBuilderPrune, BuildNoCache,
      DockerStart] \<and>
   old_container (dev_deploy (dev_builds_fail dev_quiet) dev_live) = Some (''c0ffee'', True)"
proof -
  have 1: "exit_code (before_build (build_fails quiet_env) live_host) = None \<and>
           \<not> ok (build_fails quiet_env) ComposeBuildNoCachePull"
    by (simp add: build_fails_def script_defs)
  have 2: "ok (build_fails quiet_env) ComposeDownRmi" "ok (build_fails quiet_env) RmReleaseDir"
    by (simp_all add: build_fails_def script_defs)
  have 3: "dev_ok (dev_builds_fail dev_quiet) DockerInfo \<and>
           dev_ok (dev_builds_fail dev_quiet) NpmRunBuild \<and>
           \<not> dev_ok (dev_builds_fail dev_quiet) BuildCached \<and>
           \<not> dev_ok (dev_builds_fail dev_quiet) BuildNoCache"
    "dev_ok (dev_builds_fail dev_quiet) DockerStart"
    "old_container dev_live = Some (''c0ffee'', True)"
    by (simp_all add: dev_builds_fail_def dev_quiet_def dev_live_def dev_ok_def)
  from failed_build_keeps_files_not_services
    [where e = "build_fails quiet_env" and s = live_host and d = "dev_builds_fail dev_quiet"
       and t = dev_live and i = "''c0ffee''" and r = True] 1 2 3
  show ?thesis by simp
qed

text \<open>
  C3 as stated fails: the host serves the previous release, the build of the new one
  fails, and the run ends with nothing up, having never started a service again.
\<close>

theorem failed_build_stops_services_counterexample:
  "services live_host = OldServices \<and>
   \<not> ok (build_fails quiet_env) ComposeBuildNoCachePull \<and>
   exit_code (server_clone_and_deploy (build_fails quiet_env) live_host) = Some 1 \<and>
   services (server_clone_and_deploy (build_fails quiet_env) live_host) = NoServices \<and>
   ComposeUp \<notin> set (log (server_clone_and_deploy (build_fails quiet_env) live_host))"
  by (simp add: build_fails_def script_defs)

text \<open>
  C4. When the new release fails its health check, the development script prints the logs
  and, if it found a container of the previous run, starts it again before it exits 1.
  The server script prints the logs, brings the services down, removes the release
  directory and exits 1 without starting anything: when that down succeeds, nothing is up
  at exit.
\<close>

theorem health_failure_restart_only_in_dev:
  "(exit_code (started e s) = None \<and> \<not> healthy e (health_wait e s) \<longrightarrow>
      exit_code (server_clone_and_deploy e s) = Some 1 \<and>
      log (server_clone_and_deploy e s) =
        log (health_wait e s) @ [ComposeLogs, ComposeDown, RmReleaseDir] \<and>
      app_dir (server_clone_and_deploy e s) = app_dir s \<and>
      (ok e ComposeDown \<longrightarrow> services (server_clone_and_deploy e s) = NoServices) \<and>
      (ok e RmReleaseDir \<longrightarrow> release_dir (server_clone_and_deploy e s) = None)) \<and>
   (dev_exit (dev_started d t) = None \<and> (\<forall>i<30. request d i \<noteq> Response 200) \<longrightarrow>
      dev_exit (dev_deploy d t) = Some 1 \<and>
      dev_log (dev_deploy d t) =
        dev_log (dev_health_check d (dev_started d t)) @
        DevComposeLogs # (case old_container t of None \<Rightarrow> [] | Some x \<Rightarrow> [DockerStart]) \<and>
      (old_container t = Some (i, r) \<and> dev_ok d DockerStart \<longrightarrow>
         old_container (dev_deploy d t) = Some (i, True)))"
proof (intro conjI impI)
  let ?r = "server_clone_and_deploy e s"
  {
    assume "exit_code (started e s) = None \<and> \<not> healthy e (health_wait e s)"
    then have r: "?r = abort_release e (health_wait e s)" by (simp add: server_aborts)
    show "exit_code ?r = Some 1" unfolding r by (rule abort_release_effect)
    show "log ?r = log (health_wait e s) @ [ComposeLogs, ComposeDown, RmReleaseDir]"
      unfolding r by (rule abort_release_effect)
    show "app_dir ?r = app_dir s" unfolding r by (simp add: abort_release_effect health_wait_app_dir)
    show "services ?r = NoServices" if "ok e ComposeDown"
      unfolding r using that by (rule abort_release_effect)
    show "release_dir ?r = None" if "ok e RmReleaseDir"
      unfolding r using that by (rule abort_release_effect)
  }
  assume "dev_exit (dev_started d t) = None \<and> (\<forall>i<30. request d i \<noteq> Response 200)"
  then have 1: "dev_exit (dev_started d t) = None" and 2: "\<forall>i<30. request d i \<noteq> Response 200"
    by simp_all
  note h = dev_health_failure [OF 1 2]
  show "dev_exit (dev_deploy d t) = Some 1" by (rule h(1))
  show "dev_log (dev_deploy d t) = dev_log (dev_health_check d (dev_started d t)) @
        DevComposeLogs # (case old_container t of None \<Rightarrow> [] | Some x \<Rightarrow> [DockerStart])"
    by (rule h(2))
  show "old_container (dev_deploy d t) = Some (i, True)"
    if "old_container t = Some (i, r) \<and> dev_ok d DockerStart"
    using that h(3) by blast
qed

theorem health_failure_restart_only_in_dev_witness:
  "exit_code (server_clone_and_deploy (never_answers quiet_env) live_host) = Some 1 \<and>
   services (server_clone_and_deploy (never_answers quiet_env) live_host) = NoServices \<and>
   release_dir (server_clone_and_deploy (never_answers quiet_env) live_host) = None \<and>
   dev_exit (dev_deploy (dev_never_answers dev_quiet) dev_live) = Some 1 \<and>
   old_container (dev_deploy (dev_never_answers dev_quiet) dev_live) = Some (''c0ffee'', True)"
proof -
  have 1: "exit_code (started (never_answers quiet_env) live_host) = None \<and>
           \<not> healthy (never_answers quiet_env) (health_wait (never_answers quiet_env) live_host)"
    by (simp add: never_answers_def script_defs)
  have 2: "ok (never_answers quiet_env) ComposeDown" "ok (never_answers quiet_env) RmReleaseDir"
    by (simp_all add: never_answers_def script_defs)
  have 3: "dev_exit (dev_started (dev_never_answers dev_quiet) dev_live) = None \<and>
           (\<forall>i<30. request (dev_never_answers dev_quiet) i \<noteq> Response 200)"
    by (simp add: dev_never_answers_def dev_quiet_def dev_live_def dev_defs)
  have 4: "old_container dev_live = Some (''c0ffee'', True) \<and>
           dev_ok (dev_never_answers dev_quiet) DockerStart"
    by (simp add: dev_never_answers_def dev_quiet_def dev_live_def dev_ok_def)
  from health_failure_restart_only_in_dev
    [where e = "never_answers quiet_env" and s = live_host
       and d = "dev_never_answers dev_quiet" and t = dev_live and i = "''c0ffee''" and r = True]
    1 2 3 4
  show ?thesis by simp
qed

text \<open>
  C4 as stated fails: the host serves the previous release, the new release never answers,
  and the server script ends with nothing up: after the wait it ran the logs, the down
  and the removal of the release, and no command that starts a service.
\<close>

theorem health_failure_leaves_nothing_running_counterexample:
  "services live_host = OldServices \<and>
   \<not> healthy (never_answers quiet_env) (health_wait (never_answers quiet_env) live_host) \<and>
   exit_code (server_clone_and_deploy (never_answers quiet_env) live_host) = Some 1 \<and>
   services (server_clone_and_deploy (never_answers quiet_env) live_host) = NoServices \<and>
   log (server_clone_and_deploy (never_answers quiet_env) live_host) =
     log (health_wait (never_answers quiet_env) live_host) @
     [ComposeLogs, ComposeDown, RmReleaseDir]"
  by (simp add: never_answers_def script_defs)

text \<open>
  C5. A /swapfile that is active before the run (or any swap file, when the host has 2000 MB
  or more) is left as it is by every run, whatever its outcome. The script deactivates and
  deletes /swapfile only with CREATED_SWAP set, which it sets only after its own swapon
  succeeded: on a file it made, or on a file it found present and inactive.
\<close>

theorem only_swap_activated_by_the_run_is_removed:
  "(2000 \<le> MEM_MB e \<or> (swap_active s \<and> ok e SwaponShow) \<longrightarrow>
      swap_active (server_clone_and_deploy e s) = swap_active s \<and>
      swap_exists (server_clone_and_deploy e s) = swap_exists s \<and>
      Swapoff \<notin> set (log (server_clone_and_deploy e s)) \<and>
      RmSwapfile \<notin> set (log (server_clone_and_deploy e s))) \<and>
   (Swapoff \<in> set (log (server_clone_and_deploy e s)) \<or>
    RmSwapfile \<in> set (log (server_clone_and_deploy e s)) \<longrightarrow>
      CREATED_SWAP (server_clone_and_deploy e s) \<and>
      ((SwaponExisting \<in> set (log (server_clone_and_deploy e s)) \<and> ok e SwaponExisting) \<or>
       (SwaponNew \<in> set (log (server_clone_and_deploy e s)) \<and> ok e SwaponNew)))"
proof (intro conjI impI)
  let ?r = "server_clone_and_deploy e s"
  let ?w = "health_wait e s"
  {
    assume idle: "2000 \<le> MEM_MB e \<or> (swap_active s \<and> ok e SwaponShow)"
    note w = health_wait_idle [OF idle]
    have "swap_active ?r = swap_active ?w" by (rule server_idle [OF w(3)]) (simp_all add: ran_def)
    with w(1) show "swap_active ?r = swap_active s" by simp
    have "swap_exists ?r = swap_exists ?w" by (rule server_idle [OF w(3)]) (simp_all add: ran_def)
    with w(2) show "swap_exists ?r = swap_exists s" by simp
    have "(Swapoff \<in> set (log ?r)) = (Swapoff \<in> set (log ?w))"
      by (rule server_idle [OF w(3), where g = "\<lambda>t. Swapoff \<in> set (log t)"])
        (simp_all add: ran_def)
    then show "Swapoff \<notin> set (log ?r)" by (simp add: health_wait_log)
    have "(RmSwapfile \<in> set (log ?r)) = (RmSwapfile \<in> set (log ?w))"
      by (rule server_idle [OF w(3), where g = "\<lambda>t. RmSwapfile \<in> set (log t)"])
        (simp_all add: ran_def)
    then show "RmSwapfile \<notin> set (log ?r)" by (simp add: health_wait_log)
  }
  assume removed: "Swapoff \<in> set (log ?r) \<or> RmSwapfile \<in> set (log ?r)"
  have created: "CREATED_SWAP ?w"
  proof (rule ccontr)
    assume idle: "\<not> CREATED_SWAP ?w"
    have "(Swapoff \<in> set (log ?r)) = (Swapoff \<in> set (log ?w))"
      by (rule server_idle [OF idle, where g = "\<lambda>t. Swapoff \<in> set (log t)"])
        (simp_all add: ran_def)
    moreover have "(RmSwapfile \<in> set (log ?r)) = (RmSwapfile \<in> set (log ?w))"
      by (rule server_idle [OF idle, where g = "\<lambda>t. RmSwapfile \<in> set (log t)"])
        (simp_all add: ran_def)
    ultimately show False using removed by (simp add: health_wait_log)
  qed
  have "CREATED_SWAP ?r = CREATED_SWAP ?w" by (rule server_keeps) (simp_all add: ran_def)
  with created show "CREATED_SWAP ?r" by simp
  let ?c = "create_temporary_swap e (staged e s)"
  have "CREATED_SWAP ?w =
      (case exit_code (staged e s) of None \<Rightarrow> CREATED_SWAP ?c
       | Some n \<Rightarrow> CREATED_SWAP (staged e s))"
    by (rule health_wait_swap) (simp_all add: ran_def)
  with created have running: "exit_code (staged e s) = None" and c: "CREATED_SWAP ?c"
    by (simp_all add: staged_swap split: option.splits)
  have mem: "(x \<in> set (log ?r)) = (x \<in> set (log ?c))"
    if "x = SwaponExisting \<or> x = SwaponNew" for x
  proof -
    let ?g = "\<lambda>t. x \<in> set (log t)"
    have "?g ?r = ?g ?w"
      using that by (intro server_keeps [where g = ?g]) (auto simp add: ran_def)
    also have "\<dots> = (case exit_code (staged e s) of None \<Rightarrow> ?g ?c | Some n \<Rightarrow> ?g (staged e s))"
      using that by (intro health_wait_swap [where g = ?g]) (auto simp add: ran_def)
    finally show ?thesis using running by simp
  qed
  from create_temporary_swap_created [OF c]
  show "(SwaponExisting \<in> set (log ?r) \<and> ok e SwaponExisting) \<or>
        (SwaponNew \<in> set (log ?r) \<and> ok e SwaponNew)"
    by (simp add: mem)
qed

theorem only_swap_activated_by_the_run_is_removed_witness:
  "swap_active (server_clone_and_deploy low_memory_env (live_host\<lparr>swap_exists := True, swap_active := True\<rparr>)) \<and>
   swap_exists (server_clone_and_deploy low_memory_env (live_host\<lparr>swap_exists := True, swap_active := True\<rparr>)) \<and>
   CREATED_SWAP (server_clone_and_deploy low_memory_env live_host) \<and>
   SwaponNew \<in> set (log (server_clone_and_deploy low_memory_env live_host))"
proof -
  let ?busy = "live_host\<lparr>swap_exists := True, swap_active := True\<rparr>"
  have 1: "swap_active ?busy \<and> ok low_memory_env SwaponShow"
    by (simp add: low_memory_env_def script_defs)
  have 2: "Swapoff \<in> set (log (server_clone_and_deploy low_memory_env live_host))"
    by (simp add: low_memory_env_def script_defs)
  have 3: "SwaponExisting \<notin> set (log (server_clone_and_deploy low_memory_env live_host))"
    by (simp add: low_memory_env_def script_defs)
  from only_swap_activated_by_the_run_is_removed [of low_memory_env ?busy] 1
    only_swap_activated_by_the_run_is_removed [of low_memory_env live_host] 2 3
  show ?thesis by simp
qed

text \<open>
  C5 as stated fails: on a host with 1024 MB where /swapfile is present and inactive, the
  run does not make the file (no fallocate, no dd) but reuses it, and removes it at the end.
\<close>

theorem swapfile_found_inactive_is_removed_counterexample:
  "swap_exists (swapfile_present live_host) \<and>
   exit_code (server_clone_and_deploy low_memory_env (swapfile_present live_host)) = Some 0 \<and>
   Fallocate \<notin> set (log (server_clone_and_deploy low_memory_env (swapfile_present live_host))) \<and>
   DdProgress \<notin> set (log (server_clone_and_deploy low_memory_env (swapfile_present live_host))) \<and>
   RmSwapfile \<in> set (log (server_clone_and_deploy low_memory_env (swapfile_present live_host))) \<and>
   \<not> swap_exists (server_clone_and_deploy low_memory_env (swapfile_present live_host))"
  by (simp add: low_memory_env_def swapfile_present_def script_defs)

text \<open>
  C6 asks that a run that made swap releases it once before it exits, whatever the
  outcome. The server script departs from it at this input: a host with 1024 MB and no
  /swapfile, every command succeeding but the build. The run creates and activates the
  swap file, the build fails, and the script exits 1 at line 185 with the swap file still
  there and active: lines 227 to 237 are never reached.
\<close>

theorem swap_left_behind_on_build_failure:
  "swap_exists live_host = False \<and>
   exit_code (server_clone_and_deploy (build_fails low_memory_env) live_host) = Some 1 \<and>
   CREATED_SWAP (server_clone_and_deploy (build_fails low_memory_env) live_host) \<and>
   swap_exists (server_clone_and_deploy (build_fails low_memory_env) live_host) \<and>
   swap_active (server_clone_and_deploy (build_fails low_memory_env) live_host) \<and>
   Swapoff \<notin> set (log (server_clone_and_deploy (build_fails low_memory_env) live_host)) \<and>
   RmSwapfile \<notin> set (log (server_clone_and_deploy (build_fails low_memory_env) live_host))"
  by (simp add: low_memory_env_def build_fails_def script_defs)

text \<open>
  C7. The development script makes at most two build attempts: the first with the cache;
  only when it failed, the builder cache is pruned and one attempt with \<^verbatim>\<open>--no-cache\<close>
  follows; when both failed the script exits 1. The server script prunes the builder
  cache before it builds, whatever happened, and makes one attempt, with
  \<^verbatim>\<open>--no-cache --pull\<close>; when it failed the script exits 1.
\<close>

theorem build_attempts_of_both_scripts:
  "(exit_code (before_build e s) = None \<longrightarrow>
      filter (\<lambda>c. c \<in> {BuilderPrune, ComposeBuildNoCachePull})
        (log (server_clone_and_deploy e s)) = [BuilderPrune, ComposeBuildNoCachePull] \<and>
      (\<not> ok e ComposeBuildNoCachePull \<longrightarrow> exit_code (server_clone_and_deploy e s) = Some 1)) \<and>
   (dev_ok d DockerInfo \<and> dev_ok d NpmRunBuild \<longrightarrow>
      filter (\<lambda>c. c \<in> {BuildCached, DevBuilderPrune, BuildNoCache}) (dev_log (dev_deploy d t)) =
        (if dev_ok d BuildCached then [BuildCached]
         else [BuildCached, DevBuilderPrune, BuildNoCache]) \<and>
      (\<not> dev_ok d BuildCached \<and> \<not> dev_ok d BuildNoCache \<longrightarrow>
         dev_exit (dev_deploy d t) = Some 1))"
proof (intro conjI impI)
  {
    assume run: "exit_code (before_build e s) = None"
    show "filter (\<lambda>c. c \<in> {BuilderPrune, ComposeBuildNoCachePull})
        (log (server_clone_and_deploy e s)) = [BuilderPrune, ComposeBuildNoCachePull]"
      using run by (rule server_single_attempt)
    show "exit_code (server_clone_and_deploy e s) = Some 1" if "\<not> ok e ComposeBuildNoCachePull"
      using run that by (rule build_failed_effect)
  }
  assume "dev_ok d DockerInfo \<and> dev_ok d NpmRunBuild"
  then have 1: "dev_ok d DockerInfo" and 2: "dev_ok d NpmRunBuild" by simp_all
  show "filter (\<lambda>c. c \<in> {BuildCached, DevBuilderPrune, BuildNoCache}) (dev_log (dev_deploy d t)) =
        (if dev_ok d BuildCached then [BuildCached]
         else [BuildCached, DevBuilderPrune, BuildNoCache])"
    using 1 2 by (rule dev_two_attempts)
  show "dev_exit (dev_deploy d t) = Some 1"
    if "\<not> dev_ok d BuildCached \<and> \<not> dev_ok d BuildNoCache"
    using dev_two_attempts(2) [OF 1 2] that by blast
qed

theorem build_attempts_of_both_scripts_witness:
  "filter (\<lambda>c. c \<in> {BuilderPrune, ComposeBuildNoCachePull})
     (log (server_clone_and_deploy (build_fails quiet_env) live_host)) =
     [BuilderPrune, ComposeBuildNoCachePull] \<and>
   exit_code (server_clone_and_deploy (build_fails quiet_env) live_host) = Some 1 \<and>
   filter (\<lambda>c. c \<in> {BuildCached, DevBuilderPrune, BuildNoCache})
     (dev_log (dev_deploy (dev_builds_fail dev_quiet) dev_live)) =
     [BuildCached, DevBuilderPrune, BuildNoCache] \<and>
   dev_exit (dev_deploy (dev_builds_fail dev_quiet) dev_live) = Some 1"
proof -
  have 1: "exit_code (before_build (build_fails quiet_env) live_host) = None"
    "\<not> ok (build_fails quiet_env) ComposeBuildNoCachePull"
    by (simp_all add: build_fails_def script_defs)
  have 2: "dev_ok (dev_builds_fail dev_quiet) DockerInfo \<and>
           dev_ok (dev_builds_fail dev_quiet) NpmRunBuild"
    "\<not> dev_ok (dev_builds_fail dev_quiet) BuildCached \<and>
     \<not> dev_ok (dev_builds_fail dev_quiet) BuildNoCache"
    by (simp_all add: dev_builds_fail_def dev_quiet_def dev_live_def dev_ok_def)
  from build_attempts_of_both_scripts
    [where e = "build_fails quiet_env" and s = live_host
       and d = "dev_builds_fail dev_quiet" and t = dev_live] 1 2
  show ?thesis by simp
qed

text \<open>
  C7 as stated fails: in a run of the server script in which every command succeeds, the
  builder cache is pruned although no attempt has failed, and the first and only attempt
  is the one with \<^verbatim>\<open>--no-cache --pull\<close>.
\<close>

theorem first_attempt_is_no_cache_counterexample:
  "ok quiet_env ComposeBuildNoCachePull \<and>
   exit_code (server_clone_and_deploy quiet_env live_host) = Some 0 \<and>
   log (server_clone_and_deploy quiet_env live_host) =
     [ComposeDownRmiIn ''/home/adminroot'', VolumePrune, NetworkPrune, MkdirReleasesRoot,
      MkdirReleaseDir, GitClone, CdReleaseDir, ChownReleaseDir, ComposeDownRmi, BuilderPrune,
      CdReleaseDir, ComposeBuildNoCachePull, ComposeUp, Curl, MkdirAppDir, CpReleaseToApp,
      ChownAppDir, RmReleaseDir]"
  by (simp add: script_defs)

text \<open>
  C8 asks that the wait is bounded and that it returns true on the first successful poll.
  The server script departs from the second at this input: timeout 4, the endpoint refuses
  the polls made at 0 and 2 seconds and answers 200 to the poll made at 4 seconds. The
  wait ends on that successful poll, the third, and its result is false; the run exits 1.
\<close>

theorem successful_poll_at_timeout_returns_false:
  "curl_sSf (probe late_env 2) = 0 \<and>
   polls (health_wait late_env live_host) = 3 \<and>
   ELAPSED (health_wait late_env live_host) = 4 \<and>
   healthy late_env (health_wait late_env live_host) = False \<and>
   exit_code (server_clone_and_deploy late_env live_host) = Some 1"
  by (simp add: late_env_def script_defs)

text \<open>
  C9. In the server script a poll counts as healthy exactly when curl receives an HTTP
  response with a status below 400: a refused connection, a request cut by
  \<^verbatim>\<open>--max-time\<close> and a status from 400 on count as not yet healthy, and the wait goes
  on; so the wait of a run that reached it returns true exactly when some poll made
  before the timeout got such a response. In the development script only status 200
  counts: the check succeeds exactly when one of the 30 requests returned 200.
\<close>

theorem what_counts_as_healthy:
  "(curl_sSf r = 0 \<longleftrightarrow> (\<exists>c. r = HttpStatus c \<and> c < 400)) \<and>
   (exit_code (started e s) = None \<longrightarrow>
      (healthy e (health_wait e s) \<longleftrightarrow>
         (\<exists>k c. probe e k = HttpStatus c \<and> c < 400 \<and> 2 * int k < HEALTH_TIMEOUT e))) \<and>
   (healthOk (dev_health_check d t) \<longleftrightarrow> (\<exists>i<30. request d i = Response 200))"
proof (intro conjI impI)
  show "curl_sSf r = 0 \<longleftrightarrow> (\<exists>c. r = HttpStatus c \<and> c < 400)" by (rule curl_sSf_ok)
  show "healthOk (dev_health_check d t) \<longleftrightarrow> (\<exists>i<30. request d i = Response 200)"
    by (rule dev_health_check_ok)
  assume run: "exit_code (started e s) = None"
  have "healthy e (health_wait e s) \<longleftrightarrow>
        (\<exists>k. curl_sSf (probe e k) = 0 \<and> 2 * int k < HEALTH_TIMEOUT e)"
    unfolding health_wait_running [OF run] using started_polls by (rule healthy_iff)
  then show "healthy e (health_wait e s) \<longleftrightarrow>
         (\<exists>k c. probe e k = HttpStatus c \<and> c < 400 \<and> 2 * int k < HEALTH_TIMEOUT e)"
    unfolding curl_sSf_ok by blast
qed

theorem what_counts_as_healthy_witness:
  "healthy quiet_env (health_wait quiet_env live_host) \<and>
   (\<exists>k c. probe quiet_env k = HttpStatus c \<and> c < 400 \<and> 2 * int k < HEALTH_TIMEOUT quiet_env)"
proof -
  have 1: "exit_code (started quiet_env live_host) = None" by (simp add: script_defs)
  have 2: "healthy quiet_env (health_wait quiet_env live_host)" by (simp add: script_defs)
  from what_counts_as_healthy [where e = quiet_env and s = live_host] 1 2
  show ?thesis by blast
qed

text \<open>
  C9 as stated fails: an endpoint that answers every poll with the redirect 301, which is
  not a 2xx status, counts as healthy, and the release is promoted.
\<close>

theorem redirect_counts_as_healthy_counterexample:
  "probe (redirects quiet_env) 0 = HttpStatus 301 \<and>
   curl_sSf (HttpStatus 301) = 0 \<and>
   healthy (redirects quiet_env) (health_wait (redirects quiet_env) live_host) \<and>
   CpReleaseToApp \<in> set (log (server_clone_and_deploy (redirects quiet_env) live_host)) \<and>
   exit_code (server_clone_and_deploy (redirects quiet_env) live_host) = Some 0"
  by (simp add: redirects_def script_defs)

text \<open>
  C10. When the first successful poll is the one made with the counter at or past the
  timeout (all earlier polls failed, each with the counter still below the timeout), the
  wait ends on that poll, the release is taken as unhealthy, nothing is promoted, and the
  run ends as lines 218 to 224 say: logs, down, release removed, exit 1.
\<close>

theorem success_at_timeout_is_unhealthy:
  assumes "exit_code (started e s) = None"
    and "curl_sSf (probe e k) = 0"
    and "\<forall>j<k. curl_sSf (probe e j) \<noteq> 0 \<and> 2 * int j < HEALTH_TIMEOUT e"
    and "HEALTH_TIMEOUT e \<le> 2 * int k"
  shows "polls (server_clone_and_deploy e s) = Suc k \<and>
         ELAPSED (server_clone_and_deploy e s) = 2 * int k \<and>
         \<not> healthy e (health_wait e s) \<and>
         exit_code (server_clone_and_deploy e s) = Some 1 \<and>
         log (server_clone_and_deploy e s) =
           log (health_wait e s) @ [ComposeLogs, ComposeDown, RmReleaseDir] \<and>
         app_dir (server_clone_and_deploy e s) = app_dir s \<and>
         (ok e ComposeDown \<longrightarrow> services (server_clone_and_deploy e s) = NoServices) \<and>
         (ok e RmReleaseDir \<longrightarrow> release_dir (server_clone_and_deploy e s) = None)"
proof -
  let ?w = "health_wait e s"
  have w: "?w = wait_for_application e (started e s)"
    using assms(1) by (rule health_wait_running)
  from assms(3) have earlier:
    "\<And>j. j < k \<Longrightarrow> curl_sSf (probe e j) \<noteq> 0 \<and> 2 * int j < HEALTH_TIMEOUT e" by blast
  note fs = first_success [OF started_polls assms(2) earlier, of e s, folded w]
  from fs(2) assms(4) have unhealthy: "\<not> healthy e ?w" by (simp add: healthy_def)
  with assms(1) have r: "server_clone_and_deploy e s = abort_release e ?w"
    by (rule server_aborts)
  show ?thesis
    unfolding r using fs unhealthy
    by (simp add: abort_release_effect health_wait_app_dir)
qed

theorem success_at_timeout_is_unhealthy_witness:
  "polls (server_clone_and_deploy late_env live_host) = 3 \<and>
   ELAPSED (server_clone_and_deploy late_env live_host) = 4 \<and>
   \<not> healthy late_env (health_wait late_env live_host) \<and>
   exit_code (server_clone_and_deploy late_env live_host) = Some 1 \<and>
   services (server_clone_and_deploy late_env live_host) = NoServices \<and>
   release_dir (server_clone_and_deploy late_env live_host) = None"
proof -
  have 1: "exit_code (started late_env live_host) = None"
    by (simp add: late_env_def script_defs)
  have 2: "curl_sSf (probe late_env 2) = 0" by (simp add: late_env_def script_defs)
  have 3: "\<forall>j<2. curl_sSf (probe late_env j) \<noteq> 0 \<and> 2 * int j < HEALTH_TIMEOUT late_env"
    by (simp add: late_env_def script_defs)
  have 4: "HEALTH_TIMEOUT late_env \<le> 2 * int 2" by (simp add: late_env_def script_defs)
  have 5: "ok late_env ComposeDown" "ok late_env RmReleaseDir"
    by (simp_all add: late_env_def script_defs)
  from success_at_timeout_is_unhealthy [OF 1 2 3 4] 5 show ?thesis by simp
qed

end
